theory Spec2Isabelle
  imports Complex_Main
begin

section \<open>Values of the fraud detection service\<close>

text \<open>
  The service (\<^verbatim>\<open>fraud_detection_service.py\<close>) receives JSON objects and works on the
  Python values \<^verbatim>\<open>json.loads\<close> builds from them.  A Python \<^verbatim>\<open>str\<close> is a sequence of
  Unicode code points, modelled as a list of naturals; \<open>py\<close> writes an ASCII literal.
  A JSON number is an \<^verbatim>\<open>int\<close> or a finite \<^verbatim>\<open>float\<close>; a finite float is modelled by
  the rational number it denotes (comparison with an int, truncation by \<^verbatim>\<open>int()\<close> and
  the test \<^verbatim>\<open>x % 1000 == 0\<close> are exact on floats, so they agree with the rational).
  The non-finite floats (the non-standard literals \<^verbatim>\<open>NaN\<close> and \<^verbatim>\<open>Infinity\<close>) are not
  part of the model.
\<close>

type_synonym pystr = "nat list"

definition py :: "string \<Rightarrow> pystr" where
  "py s = map of_char s"

datatype jval =
    JNull
  | JBool bool
  | JInt int
  | JFloat rat
  | JStr pystr
  | JArr "jval list"
  | JObj "(pystr \<times> jval) list"

text \<open>A request body (\<^verbatim>\<open>data: Dict[str, Any]\<close>) is a dictionary, kept as an association
  list with \<open>map_of\<close> as lookup.\<close>

type_synonym pydict = "(pystr \<times> jval) list"

datatype py_error = TypeError | AttributeError | KeyError

text \<open>Python truthiness, as used by \<^verbatim>\<open>if x:\<close> and \<^verbatim>\<open>a and b\<close>.\<close>

fun truthy :: "jval \<Rightarrow> bool" where
  "truthy JNull = False"
| "truthy (JBool b) = b"
| "truthy (JInt i) = (i \<noteq> 0)"
| "truthy (JFloat r) = (r \<noteq> 0)"
| "truthy (JStr s) = (s \<noteq> [])"
| "truthy (JArr xs) = (xs \<noteq> [])"
| "truthy (JObj kvs) = (kvs \<noteq> [])"

text \<open>The numeric value of an operand of \<^verbatim>\<open>>\<close>, \<^verbatim>\<open>int()\<close> and \<^verbatim>\<open>%\<close>: ints, floats and bools
  (\<^verbatim>\<open>True\<close> is 1) have one; for \<^verbatim>\<open>None\<close>, a string, a list or a dict the comparison
  \<^verbatim>\<open>amount > 50000\<close> raises \<^verbatim>\<open>TypeError\<close>.\<close>

fun num_value :: "jval \<Rightarrow> rat option" where
  "num_value (JInt i) = Some (of_int i)"
| "num_value (JFloat r) = Some r"
| "num_value (JBool b) = Some (if b then 1 else 0)"
| "num_value _ = None"

text \<open>\<^verbatim>\<open>int(x)\<close> truncates towards zero.\<close>

definition py_int :: "rat \<Rightarrow> int" where
  "py_int a = (if a < 0 then \<lceil>a\<rceil> else \<lfloor>a\<rfloor>)"

text \<open>\<^verbatim>\<open>str(n)\<close> of an integer: decimal digits, most significant first, \<^verbatim>\<open>-\<close> in front of a
  negative one.\<close>

fun digits :: "nat \<Rightarrow> pystr" where
  "digits n = (if n < 10 then [48 + n] else digits (n div 10) @ [48 + n mod 10])"

declare digits.simps [simp del]

definition py_str_int :: "int \<Rightarrow> pystr" where
  "py_str_int i = (if i < 0 then 45 # digits (nat (- i)) else digits (nat i))"

text \<open>\<^verbatim>\<open>x % m == 0\<close>: \<open>x\<close> is an integer multiple of \<open>m\<close>.\<close>

definition py_mod_is_zero :: "rat \<Rightarrow> int \<Rightarrow> bool" where
  "py_mod_is_zero a m = (of_int (\<lfloor>a / of_int m\<rfloor>) * of_int m = a)"

section \<open>Limits\<close>

definition MAX_DAILY_TRANSACTIONS :: nat where "MAX_DAILY_TRANSACTIONS = 10"
definition MAX_HOURLY_TRANSACTIONS :: nat where "MAX_HOURLY_TRANSACTIONS = 5"
definition MAX_SINGLE_TRANSACTION :: int where "MAX_SINGLE_TRANSACTION = 50000"
definition SUSPICIOUS_AMOUNT_THRESHOLD :: int where "SUSPICIOUS_AMOUNT_THRESHOLD = 10000"

section \<open>The amount rule\<close>

text \<open>\<^verbatim>\<open>_check_amount_patterns\<close> (the leading underscore is dropped).  \<^verbatim>\<open>data.get('amount', 0)\<close>
  is 0 for a request without the key.\<close>

definition get_amount :: "pydict \<Rightarrow> jval" where
  "get_amount data = (case map_of data (py ''amount'') of None \<Rightarrow> JInt 0 | Some v \<Rightarrow> v)"

definition check_amount_patterns :: "pydict \<Rightarrow> py_error + bool" where
  "check_amount_patterns data =
     (case num_value (get_amount data) of
        None \<Rightarrow> Inl TypeError
      | Some amount \<Rightarrow>
          if amount > of_int MAX_SINGLE_TRANSACTION then Inr True
          else if length (remdups (py_str_int (py_int amount))) = 1 then Inr True
          else if amount > of_int SUSPICIOUS_AMOUNT_THRESHOLD \<and> py_mod_is_zero amount 1000
            then Inr True
          else Inr False)"

text \<open>The amount rule in the words of the specification: the amount exceeds 50000; or all
  digits of its integer part are identical and there is more than one digit; or it exceeds
  10000 and is an exact multiple of 1000.\<close>

definition all_same_digits :: "int \<Rightarrow> bool" where
  "all_same_digits i = (length (digits (nat \<bar>i\<bar>)) > 1 \<and> length (remdups (digits (nat \<bar>i\<bar>))) = 1)"

definition spec_amount_rule :: "rat \<Rightarrow> bool" where
  "spec_amount_rule amount =
     (amount > 50000
      \<or> all_same_digits (py_int amount)
      \<or> (amount > 10000 \<and> py_mod_is_zero amount 1000))"

section \<open>Clock and ledger\<close>

text \<open>
  A naive \<^verbatim>\<open>datetime\<close> is a point on a linear scale without leap seconds; it is modelled
  by its number of microseconds since \<^verbatim>\<open>datetime.min\<close> (midnight).  \<^verbatim>\<open>isoformat\<close> followed by
  \<^verbatim>\<open>fromisoformat\<close> is the identity on such values, so a stored timestamp is the time value
  itself.  The wall clock is not under the control of the service: the world carries the
  sequence of values that successive calls of \<^verbatim>\<open>datetime.now()\<close> return and the number of
  calls made so far.
\<close>

type_synonym time = int

definition hours :: "int \<Rightarrow> time" where "hours n = n * 3600000000"
definition days :: "int \<Rightarrow> time" where "days n = n * 86400000000"
definition minutes :: "int \<Rightarrow> time" where "minutes n = n * 60000000"

definition hour_of :: "time \<Rightarrow> int" where
  "hour_of t = (t div 3600000000) mod 24"

text \<open>Keys of the two history dictionaries.  Python compares and hashes \<^verbatim>\<open>1\<close>, \<^verbatim>\<open>1.0\<close> and
  \<^verbatim>\<open>True\<close> alike; lists and dicts are unhashable and raise \<^verbatim>\<open>TypeError\<close>.\<close>

datatype pykey = KNone | KNum rat | KStr pystr

fun key_of :: "jval \<Rightarrow> py_error + pykey" where
  "key_of JNull = Inr KNone"
| "key_of (JBool b) = Inr (KNum (if b then 1 else 0))"
| "key_of (JInt i) = Inr (KNum (of_int i))"
| "key_of (JFloat r) = Inr (KNum r)"
| "key_of (JStr s) = Inr (KStr s)"
| "key_of (JArr xs) = Inl TypeError"
| "key_of (JObj kvs) = Inl TypeError"

text \<open>A stored transaction is the request dictionary with its \<^verbatim>\<open>'timestamp'\<close> entry; a stored
  voice command is \<^verbatim>\<open>{'command': ..., 'timestamp': ...}\<close>.  (\<^verbatim>\<open>log_transaction\<close> sets the
  timestamp on the caller's dictionary, which is the stored object; no rule reads that key
  of the request.)\<close>

record tx_record =
  tx_timestamp :: time
  tx_fields :: pydict

record voice_record =
  vc_command :: jval
  vc_timestamp :: time

record world =
  transaction_history :: "pykey \<Rightarrow> tx_record list option"
  voice_command_history :: "pykey \<Rightarrow> voice_record list option"
  clock :: "nat \<Rightarrow> time"
  reads :: nat

text \<open>\<^verbatim>\<open>FraudDetectionService.__init__\<close>: both histories empty.\<close>

definition init :: "(nat \<Rightarrow> time) \<Rightarrow> world" where
  "init clk = \<lparr>transaction_history = Map.empty, voice_command_history = Map.empty,
               clock = clk, reads = 0\<rparr>"

text \<open>\<^verbatim>\<open>datetime.now()\<close>.\<close>

definition now :: "world \<Rightarrow> time \<times> world" where
  "now w = (clock w (reads w), w\<lparr>reads := Suc (reads w)\<rparr>)"

text \<open>\<^verbatim>\<open>xs[-n:]\<close> for positive \<open>n\<close>.\<close>

definition last_n :: "nat \<Rightarrow> 'a list \<Rightarrow> 'a list" where
  "last_n n xs = drop (length xs - n) xs"

text \<open>\<^verbatim>\<open>log_transaction\<close> and \<^verbatim>\<open>log_voice_command\<close>.  The membership test on the dictionary
  raises for an unhashable \<^verbatim>\<open>user_id\<close> before anything is changed.\<close>

definition log_transaction :: "jval \<Rightarrow> pydict \<Rightarrow> world \<Rightarrow> (py_error + unit) \<times> world" where
  "log_transaction user_id transaction_data w =
     (case key_of user_id of
        Inl e \<Rightarrow> (Inl e, w)
      | Inr k \<Rightarrow>
          let old = (case transaction_history w k of None \<Rightarrow> [] | Some xs \<Rightarrow> xs);
              (t, w1) = now w;
              new = old @ [\<lparr>tx_timestamp = t, tx_fields = transaction_data\<rparr>];
              kept = (if length new > 100 then last_n 100 new else new)
          in (Inr (), w1\<lparr>transaction_history := (transaction_history w1)(k \<mapsto> kept)\<rparr>))"

definition log_voice_command :: "jval \<Rightarrow> jval \<Rightarrow> world \<Rightarrow> (py_error + unit) \<times> world" where
  "log_voice_command user_id command w =
     (case key_of user_id of
        Inl e \<Rightarrow> (Inl e, w)
      | Inr k \<Rightarrow>
          let old = (case voice_command_history w k of None \<Rightarrow> [] | Some xs \<Rightarrow> xs);
              (t, w1) = now w;
              new = old @ [\<lparr>vc_command = command, vc_timestamp = t\<rparr>];
              kept = (if length new > 50 then last_n 50 new else new)
          in (Inr (), w1\<lparr>voice_command_history := (voice_command_history w1)(k \<mapsto> kept)\<rparr>))"

section \<open>The transaction-rate rule and the unusual-hour rule\<close>

text \<open>\<^verbatim>\<open>data.get(key)\<close> is \<^verbatim>\<open>None\<close> for a missing key.\<close>

definition dict_get :: "pydict \<Rightarrow> string \<Rightarrow> jval" where
  "dict_get data key = (case map_of data (py key) of None \<Rightarrow> JNull | Some v \<Rightarrow> v)"

definition check_transaction_patterns :: "pydict \<Rightarrow> world \<Rightarrow> (py_error + bool) \<times> world" where
  "check_transaction_patterns data w =
     (let user_id = dict_get data ''user_id'' in
      if \<not> truthy user_id then (Inr False, w)
      else case key_of user_id of
        Inl e \<Rightarrow> (Inl e, w)
      | Inr k \<Rightarrow>
          let user_transactions = (case transaction_history w k of None \<Rightarrow> [] | Some xs \<Rightarrow> xs);
              (t, w1) = now w;
              recent_transactions = filter (\<lambda>tx. t - tx_timestamp tx < hours 1) user_transactions
          in if length recent_transactions > MAX_HOURLY_TRANSACTIONS then (Inr True, w1)
             else
               let daily_transactions = filter (\<lambda>tx. t - tx_timestamp tx < days 1) user_transactions
               in if length daily_transactions > MAX_DAILY_TRANSACTIONS then (Inr True, w1)
                  else (Inr False, w1))"

definition check_time_patterns :: "pydict \<Rightarrow> world \<Rightarrow> (py_error + bool) \<times> world" where
  "check_time_patterns data w =
     (let (t, w1) = now w; hour = hour_of t
      in if 2 \<le> hour \<and> hour \<le> 5 then (Inr True, w1) else (Inr False, w1))"

text \<open>The windowed count of the specification: the number of records whose age
  \<open>now - timestamp\<close> is below the window.\<close>

definition countWithin :: "tx_record list \<Rightarrow> time \<Rightarrow> time \<Rightarrow> nat" where
  "countWithin records t window = length (filter (\<lambda>r. t - tx_timestamp r < window) records)"

section \<open>Text matching\<close>

text \<open>
  The tables of the Unicode database that the Python runtime consults are not part of the
  service; they are a parameter of the model: the characters matched by \<^verbatim>\<open>\s\<close> (the same
  set \<^verbatim>\<open>str.strip\<close> removes), by \<^verbatim>\<open>\d\<close> with their digit values (as \<^verbatim>\<open>float\<close> reads them),
  by \<^verbatim>\<open>\w\<close>, and the function \<^verbatim>\<open>str.lower\<close>.
\<close>

record unicode =
  u_space :: "nat \<Rightarrow> bool"
  u_decimal :: "nat \<Rightarrow> bool"
  u_digit_value :: "nat \<Rightarrow> nat"
  u_word :: "nat \<Rightarrow> bool"
  u_lower :: "pystr \<Rightarrow> pystr"

text \<open>\<^verbatim>\<open>needle in text\<close> on strings.\<close>

fun contains :: "pystr \<Rightarrow> pystr \<Rightarrow> bool" where
  "contains [] needle = (needle = [])"
| "contains (c # cs) needle = (take (length needle) (c # cs) = needle \<or> contains cs needle)"

text \<open>
  Regular expressions, as far as the patterns of the service use them: literal text, a
  greedy repetition \<^verbatim>\<open>{lo,hi}\<close> of one character class (\<^verbatim>\<open>+\<close> is \<^verbatim>\<open>{1,}\<close>, \<^verbatim>\<open>?\<close> is \<^verbatim>\<open>{0,1}\<close>),
  concatenation, alternation, numbered groups and \<^verbatim>\<open>\b\<close>.  \<open>rmatch\<close> lists the ways a pattern
  matches at the current position in the order a backtracking matcher tries them, so the
  head of the list is the match \<^verbatim>\<open>re\<close> reports.  A matching state is the character before
  the position (for \<^verbatim>\<open>\b\<close>), the rest of the text and the groups captured so far.
\<close>

datatype cclass = CChar nat | CRange nat nat | CSpace | CDigit | CUnion cclass cclass

fun cc_mem :: "unicode \<Rightarrow> cclass \<Rightarrow> nat \<Rightarrow> bool" where
  "cc_mem U (CChar c) x = (x = c)"
| "cc_mem U (CRange a b) x = (a \<le> x \<and> x \<le> b)"
| "cc_mem U CSpace x = u_space U x"
| "cc_mem U CDigit x = u_decimal U x"
| "cc_mem U (CUnion p q) x = (cc_mem U p x \<or> cc_mem U q x)"

datatype regex =
    Lit pystr
  | Rep cclass nat "nat option"
  | Cat regex regex
  | Alt regex regex
  | Group nat regex
  | WordB

type_synonym captures = "(nat \<times> pystr) list"
type_synonym mstate = "nat option \<times> pystr \<times> captures"

primrec run_length :: "(nat \<Rightarrow> bool) \<Rightarrow> pystr \<Rightarrow> nat" where
  "run_length P [] = 0"
| "run_length P (c # cs) = (if P c then Suc (run_length P cs) else 0)"

definition advance :: "nat option \<Rightarrow> pystr \<Rightarrow> nat \<Rightarrow> nat option" where
  "advance prev s k = (case rev (take k s) of [] \<Rightarrow> prev | c # _ \<Rightarrow> Some c)"

definition at_boundary :: "unicode \<Rightarrow> nat option \<Rightarrow> pystr \<Rightarrow> bool" where
  "at_boundary U prev s =
     ((case prev of None \<Rightarrow> False | Some c \<Rightarrow> u_word U c)
      \<noteq> (case s of [] \<Rightarrow> False | c # _ \<Rightarrow> u_word U c))"

fun rmatch :: "unicode \<Rightarrow> regex \<Rightarrow> mstate \<Rightarrow> mstate list" where
  "rmatch U (Lit l) (prev, s, caps) =
     (if take (length l) s = l then [(advance prev s (length l), drop (length l) s, caps)]
      else [])"
| "rmatch U (Rep cl lo hi) (prev, s, caps) =
     (let n = run_length (cc_mem U cl) s;
          m = (case hi of None \<Rightarrow> n | Some h \<Rightarrow> min h n)
      in map (\<lambda>k. (advance prev s k, drop k s, caps)) (rev [lo..<Suc m]))"
| "rmatch U (Cat a b) st = concat (map (rmatch U b) (rmatch U a st))"
| "rmatch U (Alt a b) st = rmatch U a st @ rmatch U b st"
| "rmatch U (Group i r) (prev, s, caps) =
     map (\<lambda>(prev', s', caps'). (prev', s', (i, take (length s - length s') s) # caps'))
       (rmatch U r (prev, s, caps))"
| "rmatch U WordB (prev, s, caps) = (if at_boundary U prev s then [(prev, s, caps)] else [])"

text \<open>\<^verbatim>\<open>re.search\<close>: the first match at the leftmost position that has one.\<close>

fun search_from :: "unicode \<Rightarrow> regex \<Rightarrow> nat option \<Rightarrow> pystr \<Rightarrow> captures option" where
  "search_from U r prev [] =
     (case rmatch U r (prev, [], []) of [] \<Rightarrow> None | (_, _, caps) # _ \<Rightarrow> Some caps)"
| "search_from U r prev (c # cs) =
     (case rmatch U r (prev, c # cs, []) of
        [] \<Rightarrow> search_from U r (Some c) cs
      | (_, _, caps) # _ \<Rightarrow> Some caps)"

definition re_search :: "unicode \<Rightarrow> regex \<Rightarrow> pystr \<Rightarrow> captures option" where
  "re_search U r s = search_from U r None s"

fun cat_all :: "regex list \<Rightarrow> regex" where
  "cat_all [] = Lit []"
| "cat_all [r] = r"
| "cat_all (r # rs) = Cat r (cat_all rs)"

fun alt_all :: "regex list \<Rightarrow> regex" where
  "alt_all [] = Lit []"
| "alt_all [r] = r"
| "alt_all (r # rs) = Alt r (alt_all rs)"

definition rep1 :: "cclass \<Rightarrow> regex" where
  "rep1 cl = Rep cl 1 None"

text \<open>\<^verbatim>\<open>str.strip()\<close>.\<close>

definition strip :: "unicode \<Rightarrow> pystr \<Rightarrow> pystr" where
  "strip U s = rev (dropWhile (u_space U) (rev (dropWhile (u_space U) s)))"

text \<open>\<^verbatim>\<open>float(s)\<close> for a string of decimal digits: the number the digits denote.  (Python
  rounds it to the nearest double; up to \<open>2^53\<close> that is the number itself.)\<close>

definition float_of_digits :: "unicode \<Rightarrow> pystr \<Rightarrow> rat" where
  "float_of_digits U s = of_nat (foldl (\<lambda>a c. 10 * a + u_digit_value U c) 0 s)"

section \<open>Pattern catalogue\<close>

text \<open>\<^verbatim>\<open>GAMBLING_KEYWORDS\<close>: English, Hindi, Bengali, Tamil and Telugu entries, the latter four
  given by their code points.\<close>

definition GAMBLING_KEYWORDS :: "pystr list" where
  "GAMBLING_KEYWORDS =
    [py ''bet'', py ''gambling'', py ''casino'', py ''poker'', py ''lottery'', py ''jackpot'',
     py ''wager'', py ''stake'', py ''betting'', py ''gamble'', py ''slot'', py ''roulette'',
     py ''blackjack'', py ''baccarat'', py ''craps'', py ''sportsbook'', py ''bookmaker'',
     py ''odds'', py ''handicap'', py ''spread'', py ''parlay'', [0x936, 0x930, 0x94D, 0x924],
     [0x91C, 0x941, 0x906], [0x915, 0x948, 0x938, 0x940, 0x928, 0x94B],
     [0x932, 0x949, 0x91F, 0x930, 0x940], [0x91C, 0x948, 0x915, 0x92A, 0x949, 0x91F],
     [0x938, 0x91F, 0x94D, 0x91F, 0x93E], [0x92C, 0x93E, 0x91C, 0x940],
     [0x92A, 0x948, 0x938, 0x93E], [0x930, 0x941, 0x92A, 0x92F, 0x93E],
     [0x91F, 0x93F, 0x915, 0x91F], [0x928, 0x902, 0x92C, 0x930], [0x917, 0x947, 0x92E],
     [0x916, 0x947, 0x932], [0x91C, 0x940, 0x924], [0x939, 0x93E, 0x930],
     [0x92A, 0x948, 0x938, 0x93E], [0x9AC, 0x9BE, 0x99C, 0x9BF],
     [0x99C, 0x9C1, 0x9AF, 0x9BC, 0x9BE],
     [0x995, 0x9CD, 0x9AF, 0x9BE, 0x9B8, 0x9BF, 0x9A8, 0x9CB],
     [0x9B2, 0x99F, 0x9BE, 0x9B0, 0x9BF], [0x99C, 0x9CD, 0x9AF, 0x9BE, 0x995, 0x9AA, 0x99F],
     [0x99F, 0x9BF, 0x995, 0x9BF, 0x99F], [0x9A8, 0x9AE, 0x9CD, 0x9AC, 0x9B0],
     [0x997, 0x9C7, 0x9AE], [0x996, 0x9C7, 0x9B2, 0x9BE], [0x99C, 0x9AF, 0x9BC],
     [0x9B9, 0x9BE, 0x9B0], [0x99F, 0x9BE, 0x995, 0x9BE],
     [0xBAA, 0xBA8, 0xBCD, 0xBA4, 0xBAF, 0xBAE, 0xBCD],
     [0xB9A, 0xBC2, 0xBA4, 0xBBE, 0xB9F, 0xBCD, 0xB9F, 0xBAE, 0xBCD],
     [0xBB2, 0xBBE, 0xB9F, 0xBCD, 0xB9F, 0xBB0, 0xBBF],
     [0xB9C, 0xBBE, 0xB95, 0xBCD, 0xBAA, 0xBBE, 0xB9F, 0xBCD],
     [0xB9F, 0xBBF, 0xB95, 0xBCD, 0xB95, 0xBC6, 0xB9F, 0xBCD], [0xB8E, 0xBA3, 0xBCD],
     [0xBB5, 0xBBF, 0xBB3, 0xBC8, 0xBAF, 0xBBE, 0xB9F, 0xBCD, 0xB9F, 0xBC1],
     [0xBB5, 0xBBF, 0xBB3, 0xBC8, 0xBAF, 0xBBE, 0xB9F, 0xBC1],
     [0xBB5, 0xBC6, 0xBB1, 0xBCD, 0xBB1, 0xBBF], [0xBA4, 0xBCB, 0xBB2, 0xBCD, 0xBB5, 0xBBF],
     [0xBAA, 0xBA3, 0xBAE, 0xBCD], [0xC1C, 0xC42, 0xC26, 0xC02],
     [0xC32, 0xC3E, 0xC1F, 0xC30, 0xC40], [0xC15, 0xC3E, 0xC38, 0xC3F, 0xC28, 0xC4B],
     [0xC1C, 0xC3E, 0xC15, 0xC4D, 0xC2A, 0xC3E, 0xC1F, 0xC4D],
     [0xC1F, 0xC3F, 0xC15, 0xC46, 0xC1F, 0xC4D], [0xC38, 0xC02, 0xC16, 0xC4D, 0xC2F],
     [0xC17, 0xC47, 0xC2E, 0xC4D], [0xC06, 0xC21, 0xC41],
     [0xC17, 0xC46, 0xC32, 0xC41, 0xC2A, 0xC41], [0xC13, 0xC1F, 0xC2E, 0xC3F],
     [0xC21, 0xC2C, 0xC4D, 0xC2C, 0xC41]]"

text \<open>\<^verbatim>\<open>SUSPICIOUS_PATTERNS\<close>:
  \<^verbatim>\<open>\b\d{4,6}\b\<close>, \<^verbatim>\<open>\b\d{10,}\b\<close>, \<^verbatim>\<open>urgent|emergency|quick|fast|immediate\<close>,
  \<^verbatim>\<open>secret|confidential|private\<close>, \<^verbatim>\<open>call me|contact me|message me\<close>.\<close>

definition SUSPICIOUS_PATTERNS :: "regex list" where
  "SUSPICIOUS_PATTERNS =
    [cat_all [WordB, Rep CDigit 4 (Some 6), WordB],
     cat_all [WordB, Rep CDigit 10 None, WordB],
     alt_all [Lit (py ''urgent''), Lit (py ''emergency''), Lit (py ''quick''), Lit (py ''fast''),
              Lit (py ''immediate'')],
     alt_all [Lit (py ''secret''), Lit (py ''confidential''), Lit (py ''private'')],
     alt_all [Lit (py ''call me''), Lit (py ''contact me''), Lit (py ''message me'')]]"

text \<open>
  The patterns of \<^verbatim>\<open>extract_voice_intent\<close>.  A send pattern is kept with its source text
  (as code points), which the function inspects with \<^verbatim>\<open>'ko' in pattern\<close>:
  \<^verbatim>\<open>send\s+(\d+)\s+to\s+([a-zA-Z\s]+)\<close>,
  \<^verbatim>\<open>(\d+)\s+rupees?\s+to\s+([a-zA-Z\s]+)\<close>,
  \<^verbatim>\<open>([a-zA-Z\s]+)\s+ko\s+(\d+)\s+bhej\<close> and the same with \<^verbatim>\<open>ko\<close> and \<^verbatim>\<open>bhej\<close> in
  Devanagari (U+0915 U+094B and U+092D U+0947 U+091C).
\<close>

definition letters_or_space :: cclass where
  "letters_or_space = CUnion (CRange 97 122) (CUnion (CRange 65 90) CSpace)"

definition ko_devanagari :: pystr where
  "ko_devanagari = [0x915, 0x94B]"

definition bhej_devanagari :: pystr where
  "bhej_devanagari = [0x92D, 0x947, 0x91C]"

definition send_patterns :: "(pystr \<times> regex) list" where
  "send_patterns =
    [([115, 101, 110, 100, 92, 115, 43, 40, 92, 100, 43, 41, 92, 115, 43, 116, 111, 92, 115,
        43, 40, 91, 97, 45, 122, 65, 45, 90, 92, 115, 93, 43, 41],
      cat_all [Lit (py ''send''), rep1 CSpace, Group 1 (rep1 CDigit), rep1 CSpace, Lit (py ''to''),
               rep1 CSpace, Group 2 (rep1 letters_or_space)]),
     ([40, 92, 100, 43, 41, 92, 115, 43, 114, 117, 112, 101, 101, 115, 63, 92, 115, 43, 116,
        111, 92, 115, 43, 40, 91, 97, 45, 122, 65, 45, 90, 92, 115, 93, 43, 41],
      cat_all [Group 1 (rep1 CDigit), rep1 CSpace, Lit (py ''rupee''), Rep (CChar 115) 0 (Some 1),
               rep1 CSpace, Lit (py ''to''), rep1 CSpace, Group 2 (rep1 letters_or_space)]),
     ([40, 91, 97, 45, 122, 65, 45, 90, 92, 115, 93, 43, 41, 92, 115, 43, 107, 111, 92, 115,
        43, 40, 92, 100, 43, 41, 92, 115, 43, 98, 104, 101, 106],
      cat_all [Group 1 (rep1 letters_or_space), rep1 CSpace, Lit (py ''ko''), rep1 CSpace,
               Group 2 (rep1 CDigit), rep1 CSpace, Lit (py ''bhej'')]),
     ([40, 91, 97, 45, 122, 65, 45, 90, 92, 115, 93, 43, 41, 92, 115, 43, 2325, 2379, 92, 115,
        43, 40, 92, 100, 43, 41, 92, 115, 43, 2349, 2375, 2332],
      cat_all [Group 1 (rep1 letters_or_space), rep1 CSpace, Lit ko_devanagari, rep1 CSpace,
               Group 2 (rep1 CDigit), rep1 CSpace, Lit bhej_devanagari])]"

text \<open>The other groups are literal words separated by \<^verbatim>\<open>\s+\<close>; the ASCII ones are
  \<^verbatim>\<open>receive\s+money\<close>, \<^verbatim>\<open>show\s+qr\<close>, \<^verbatim>\<open>qr\s+code\<close>, \<^verbatim>\<open>balance\<close>, \<^verbatim>\<open>how\s+much\<close>, \<^verbatim>\<open>history\<close>, \<^verbatim>\<open>transactions\<close>, \<^verbatim>\<open>list\<close>, \<^verbatim>\<open>help\<close>, \<^verbatim>\<open>what\s+can\s+you\s+do\<close>.\<close>

definition receive_patterns :: "regex list" where
  "receive_patterns =
    [cat_all [Lit (py ''receive''), rep1 CSpace, Lit (py ''money'')],
     cat_all [Lit (py ''show''), rep1 CSpace, Lit (py ''qr'')],
     cat_all [Lit (py ''qr''), rep1 CSpace, Lit (py ''code'')],
     cat_all [Lit ([0x92A, 0x948, 0x938, 0x93E]), rep1 CSpace, Lit ([0x932, 0x947])],
     cat_all [Lit ([0x915, 0x94D, 0x92F, 0x942, 0x906, 0x930]), rep1 CSpace, Lit ([0x926, 0x93F, 0x916, 0x93E])]]"

definition balance_patterns :: "regex list" where
  "balance_patterns =
    [Lit (py ''balance''),
     cat_all [Lit (py ''how''), rep1 CSpace, Lit (py ''much'')],
     cat_all [Lit ([0x915, 0x93F, 0x924, 0x928, 0x93E]), rep1 CSpace, Lit ([0x92A, 0x948, 0x938, 0x93E])],
     Lit ([0x92C, 0x948, 0x932, 0x947, 0x902, 0x938]),
     Lit ([0x92C, 0x93E, 0x915, 0x940])]"

definition history_patterns :: "regex list" where
  "history_patterns =
    [Lit (py ''history''),
     Lit (py ''transactions''),
     Lit (py ''list''),
     Lit ([0x907, 0x924, 0x93F, 0x939, 0x93E, 0x938]),
     Lit ([0x932, 0x93F, 0x938, 0x94D, 0x91F])]"

definition help_patterns :: "regex list" where
  "help_patterns =
    [Lit (py ''help''),
     cat_all [Lit (py ''what''), rep1 CSpace, Lit (py ''can''), rep1 CSpace, Lit (py ''you''), rep1 CSpace, Lit (py ''do'')],
     Lit ([0x92E, 0x926, 0x926]),
     cat_all [Lit ([0x915, 0x94D, 0x92F, 0x93E]), rep1 CSpace, Lit ([0x915, 0x930]), rep1 CSpace, Lit ([0x938, 0x915, 0x924, 0x947]), rep1 CSpace, Lit ([0x939, 0x94B])]]"

section \<open>The keyword rule and the voice rule\<close>

text \<open>
  \<^verbatim>\<open>_check_gambling_keywords\<close>.  A field contributes its lower-cased text and a blank when the
  key is present and its value is truthy; \<^verbatim>\<open>.lower()\<close> on a truthy value that is not a string
  raises \<^verbatim>\<open>AttributeError\<close>.
\<close>

definition field_text :: "unicode \<Rightarrow> pydict \<Rightarrow> string \<Rightarrow> py_error + pystr" where
  "field_text U data key =
     (case map_of data (py key) of
        None \<Rightarrow> Inr []
      | Some v \<Rightarrow>
          if \<not> truthy v then Inr []
          else (case v of JStr s \<Rightarrow> Inr (u_lower U s @ py '' '') | _ \<Rightarrow> Inl AttributeError))"

definition check_gambling_keywords :: "unicode \<Rightarrow> pydict \<Rightarrow> py_error + bool" where
  "check_gambling_keywords U data =
     (case field_text U data ''description'' of
        Inl e \<Rightarrow> Inl e
      | Inr t1 \<Rightarrow>
     (case field_text U data ''voice_command'' of
        Inl e \<Rightarrow> Inl e
      | Inr t2 \<Rightarrow>
     (case field_text U data ''recipient_name'' of
        Inl e \<Rightarrow> Inl e
      | Inr t3 \<Rightarrow>
          Inr (list_ex (\<lambda>keyword. contains (t1 @ t2 @ t3) (u_lower U keyword))
                 GAMBLING_KEYWORDS))))"

text \<open>The list comprehension of \<^verbatim>\<open>_check_voice_patterns\<close> reads the clock once for every stored
  command.\<close>

fun recent_commands :: "voice_record list \<Rightarrow> world \<Rightarrow> voice_record list \<times> world" where
  "recent_commands [] w = ([], w)"
| "recent_commands (cmd # cmds) w =
     (let (t, w1) = now w;
          (rest, w2) = recent_commands cmds w1
      in (if t - vc_timestamp cmd < minutes 5 then cmd # rest else rest, w2))"

definition check_voice_patterns :: "unicode \<Rightarrow> pydict \<Rightarrow> world \<Rightarrow> (py_error + bool) \<times> world" where
  "check_voice_patterns U data w =
     (let voice_command =
            (case map_of data (py ''voice_command'') of None \<Rightarrow> JStr [] | Some v \<Rightarrow> v)
      in if \<not> truthy voice_command then (Inr False, w)
         else case voice_command of
           JStr s \<Rightarrow>
             let voice_lower = u_lower U s in
             if list_ex (\<lambda>pattern. re_search U pattern voice_lower \<noteq> None) SUSPICIOUS_PATTERNS
             then (Inr True, w)
             else
               let user_id = dict_get data ''user_id'' in
               if truthy user_id then
                 (case key_of user_id of
                    Inl e \<Rightarrow> (Inl e, w)
                  | Inr k \<Rightarrow>
                      let user_commands =
                            (case voice_command_history w k of None \<Rightarrow> [] | Some xs \<Rightarrow> xs);
                          (recent, w1) = recent_commands user_commands w
                      in if length recent > 3 then (Inr True, w1) else (Inr False, w1))
               else (Inr False, w)
         | _ \<Rightarrow> (Inl AttributeError, w))"

section \<open>The aggregator\<close>

text \<open>The verdict dictionary of \<^verbatim>\<open>detect_fraud\<close>.  The confidence \<^verbatim>\<open>min(risk_score / 100, 1.0)\<close>
  is the float nearest to the rational kept here.\<close>

record verdict =
  is_fraud :: bool
  risk_score :: int
  fraud_indicators :: "string list"
  confidence :: rat
  timestamp :: time

text \<open>One step of the method: when a rule fired, append its indicator and add its weight.\<close>

definition add_rule :: "bool \<Rightarrow> string \<Rightarrow> int \<Rightarrow> string list \<times> int \<Rightarrow> string list \<times> int" where
  "add_rule fired name weight acc =
     (if fired then (fst acc @ [name], snd acc + weight) else acc)"

definition detect_fraud :: "unicode \<Rightarrow> pydict \<Rightarrow> world \<Rightarrow> (py_error + verdict) \<times> world" where
  "detect_fraud U data w =
     (case check_gambling_keywords U data of
        Inl e \<Rightarrow> (Inl e, w)
      | Inr gambling \<Rightarrow>
     (case check_transaction_patterns data w of
        (Inl e, w1) \<Rightarrow> (Inl e, w1)
      | (Inr rate, w1) \<Rightarrow>
     (case check_amount_patterns data of
        Inl e \<Rightarrow> (Inl e, w1)
      | Inr amount \<Rightarrow>
     (case check_voice_patterns U data w1 of
        (Inl e, w2) \<Rightarrow> (Inl e, w2)
      | (Inr voice, w2) \<Rightarrow>
     (case check_time_patterns data w2 of
        (Inl e, w3) \<Rightarrow> (Inl e, w3)
      | (Inr hour, w3) \<Rightarrow>
          let (indicators, score) =
                add_rule hour ''suspicious_time_pattern'' 10
                  (add_rule voice ''suspicious_voice_pattern'' 15
                    (add_rule amount ''suspicious_amount_pattern'' 20
                      (add_rule rate ''suspicious_transaction_pattern'' 25
                        (add_rule gambling ''gambling_keywords_detected'' 30 ([], 0)))));
              (t, w4) = now w3
          in (Inr \<lparr>is_fraud = (score \<ge> 50 \<or> length indicators \<ge> 2),
                    risk_score = min score 100,
                    fraud_indicators = indicators,
                    confidence = min (of_int score / 100) 1,
                    timestamp = t\<rparr>, w4))))))"

section \<open>The endpoints\<close>

text \<open>
  The body of a request is the dictionary \<^verbatim>\<open>request.get_json()\<close> returned (bodies that are
  not JSON objects are outside the model).  An endpoint answers 200 with a result, 400, or
  500 when an exception reached its \<^verbatim>\<open>except\<close> clause; what was logged before the exception
  stays logged.
\<close>

datatype 'a response = Ok200 'a | Err400 | Err500

definition log_request :: "pydict \<Rightarrow> world \<Rightarrow> (py_error + unit) \<times> world" where
  "log_request data w =
     (let user_id = dict_get data ''user_id'' in
      if truthy user_id then
        (case log_transaction user_id data w of
           (Inl e, w1) \<Rightarrow> (Inl e, w1)
         | (Inr _, w1) \<Rightarrow>
             (case map_of data (py ''voice_command'') of
                None \<Rightarrow> (Inr (), w1)
              | Some command \<Rightarrow> log_voice_command user_id command w1))
      else (Inr (), w))"

definition detect_fraud_route :: "unicode \<Rightarrow> pydict \<Rightarrow> world \<Rightarrow> verdict response \<times> world" where
  "detect_fraud_route U data w =
     (if data = [] then (Err400, w)
      else case log_request data w of
        (Inl e, w1) \<Rightarrow> (Err500, w1)
      | (Inr _, w1) \<Rightarrow>
          (case detect_fraud U data w1 of
             (Inl e, w2) \<Rightarrow> (Err500, w2)
           | (Inr result, w2) \<Rightarrow> (Ok200 result, w2)))"

section \<open>The intent extractor\<close>

text \<open>The result dictionary, with the keys \<^verbatim>\<open>intent\<close>, \<^verbatim>\<open>amount\<close>, \<^verbatim>\<open>recipient\<close>, \<^verbatim>\<open>confidence\<close>
  and \<^verbatim>\<open>original_command\<close> (\<open>None\<close> for a key that is not set).\<close>

record intent_result =
  r_intent :: string
  r_amount :: "rat option"
  r_recipient :: "pystr option"
  r_confidence :: rat
  r_original_command :: "pystr option"

text \<open>\<^verbatim>\<open>match.group(i)\<close> is \<^verbatim>\<open>None\<close> for a group that took no part in the match; \<^verbatim>\<open>.strip()\<close> and
  \<^verbatim>\<open>float()\<close> raise on it.\<close>

definition send_result :: "unicode \<Rightarrow> pystr \<Rightarrow> captures \<Rightarrow> py_error + intent_result" where
  "send_result U pattern caps =
     (if contains pattern (py ''ko'') \<or> contains pattern ko_devanagari then
        (case map_of caps 1 of
           None \<Rightarrow> Inl AttributeError
         | Some name \<Rightarrow>
        (case map_of caps 2 of
           None \<Rightarrow> Inl TypeError
         | Some number \<Rightarrow>
             Inr \<lparr>r_intent = ''send_money'', r_amount = Some (float_of_digits U number),
                  r_recipient = Some (strip U name), r_confidence = 9 / 10,
                  r_original_command = None\<rparr>))
      else
        (case map_of caps 1 of
           None \<Rightarrow> Inl TypeError
         | Some number \<Rightarrow>
        (case map_of caps 2 of
           None \<Rightarrow> Inl AttributeError
         | Some name \<Rightarrow>
             Inr \<lparr>r_intent = ''send_money'', r_amount = Some (float_of_digits U number),
                  r_recipient = Some (strip U name), r_confidence = 9 / 10,
                  r_original_command = None\<rparr>)))"

fun first_send :: "unicode \<Rightarrow> (pystr \<times> regex) list \<Rightarrow> pystr \<Rightarrow> (py_error + intent_result) option" where
  "first_send U [] command = None"
| "first_send U ((pattern, r) # rest) command =
     (case re_search U r command of
        None \<Rightarrow> first_send U rest command
      | Some caps \<Rightarrow> Some (send_result U pattern caps))"

definition any_match :: "unicode \<Rightarrow> regex list \<Rightarrow> pystr \<Rightarrow> bool" where
  "any_match U patterns command = list_ex (\<lambda>r. re_search U r command \<noteq> None) patterns"

definition simple_intent :: "string \<Rightarrow> intent_result" where
  "simple_intent name =
     \<lparr>r_intent = name, r_amount = None, r_recipient = None, r_confidence = 8 / 10,
      r_original_command = None\<rparr>"

definition extract_voice_intent :: "unicode \<Rightarrow> pystr \<Rightarrow> py_error + intent_result" where
  "extract_voice_intent U command =
     (case first_send U send_patterns command of
        Some result \<Rightarrow> result
      | None \<Rightarrow>
          if any_match U receive_patterns command then Inr (simple_intent ''receive_money'')
          else if any_match U balance_patterns command then Inr (simple_intent ''check_balance'')
          else if any_match U history_patterns command then Inr (simple_intent ''view_history'')
          else if any_match U help_patterns command then Inr (simple_intent ''help'')
          else Inr \<lparr>r_intent = ''unknown'', r_amount = None, r_recipient = None,
                    r_confidence = 1 / 10, r_original_command = Some command\<rparr>)"

text \<open>The endpoint \<^verbatim>\<open>/process-voice\<close> lower-cases the command before it logs it and extracts
  the intent.\<close>

definition process_voice :: "unicode \<Rightarrow> pydict \<Rightarrow> world \<Rightarrow> intent_result response \<times> world" where
  "process_voice U data w =
     (if data = [] \<or> map_of data (py ''command'') = None then (Err400, w)
      else case dict_get data ''command'' of
        JStr s \<Rightarrow>
          let command = u_lower U s;
              user_id = (case map_of data (py ''user_id'') of None \<Rightarrow> JStr [] | Some v \<Rightarrow> v);
              logged = (if truthy user_id then log_voice_command user_id (JStr command) w
                        else (Inr (), w))
          in (case logged of
                (Inl e, w1) \<Rightarrow> (Err500, w1)
              | (Inr _, w1) \<Rightarrow>
                  (case extract_voice_intent U command of
                     Inl e \<Rightarrow> (Err500, w1)
                   | Inr result \<Rightarrow> (Ok200 result, w1)))
      | _ \<Rightarrow> (Err500, w))"

section \<open>The tables on ASCII text\<close>

text \<open>
  On code points below 128 every Python runtime agrees: \<^verbatim>\<open>\s\<close> and \<^verbatim>\<open>strip\<close> take the characters
  9 to 13 and 28 to 32, \<^verbatim>\<open>\d\<close> the digits, \<^verbatim>\<open>\w\<close> letters, digits and the underscore, and
  \<^verbatim>\<open>lower\<close> maps an ASCII string letter by letter.  \<open>ascii_unicode\<close> is such a table (it
  treats every other character as neither blank, digit nor word character); \<open>ascii_agrees\<close>
  says that a table behaves like it on ASCII.
\<close>

definition ascii_space :: "nat \<Rightarrow> bool" where
  "ascii_space c = ((9 \<le> c \<and> c \<le> 13) \<or> (28 \<le> c \<and> c \<le> 32))"

definition ascii_decimal :: "nat \<Rightarrow> bool" where
  "ascii_decimal c = (48 \<le> c \<and> c \<le> 57)"

definition ascii_word :: "nat \<Rightarrow> bool" where
  "ascii_word c = ((48 \<le> c \<and> c \<le> 57) \<or> (65 \<le> c \<and> c \<le> 90) \<or> c = 95 \<or> (97 \<le> c \<and> c \<le> 122))"

definition ascii_lower :: "pystr \<Rightarrow> pystr" where
  "ascii_lower s = map (\<lambda>c. if 65 \<le> c \<and> c \<le> 90 then c + 32 else c) s"

definition ascii_unicode :: unicode where
  "ascii_unicode =
     \<lparr>u_space = ascii_space, u_decimal = ascii_decimal, u_digit_value = (\<lambda>c. c - 48),
      u_word = ascii_word, u_lower = ascii_lower\<rparr>"

definition is_ascii :: "pystr \<Rightarrow> bool" where
  "is_ascii s = list_all (\<lambda>c. c < 128) s"

definition ascii_agrees :: "unicode \<Rightarrow> bool" where
  "ascii_agrees U =
     ((\<forall>c < 128. u_space U c = ascii_space c \<and> u_decimal U c = ascii_decimal c
                 \<and> u_word U c = ascii_word c
                 \<and> (ascii_decimal c \<longrightarrow> u_digit_value U c = c - 48))
      \<and> (\<forall>s. is_ascii s \<longrightarrow> u_lower U s = ascii_lower s))"

section \<open>Weights and indicators of the specification\<close>

definition weight_of :: "string \<Rightarrow> int" where
  "weight_of name =
     (if name = ''gambling_keywords_detected'' then 30
      else if name = ''suspicious_transaction_pattern'' then 25
      else if name = ''suspicious_amount_pattern'' then 20
      else if name = ''suspicious_voice_pattern'' then 15
      else if name = ''suspicious_time_pattern'' then 10
      else 0)"

text \<open>The indicators of the rules that fired, in the order of evaluation.\<close>

definition triggered :: "bool \<Rightarrow> bool \<Rightarrow> bool \<Rightarrow> bool \<Rightarrow> bool \<Rightarrow> string list" where
  "triggered gambling rate amount voice hour =
     (if gambling then [''gambling_keywords_detected''] else [])
     @ (if rate then [''suspicious_transaction_pattern''] else [])
     @ (if amount then [''suspicious_amount_pattern''] else [])
     @ (if voice then [''suspicious_voice_pattern''] else [])
     @ (if hour then [''suspicious_time_pattern''] else [])"

section \<open>Runs of the ledger\<close>








section \<open>A sample identity\<close>

text \<open>The request \<^verbatim>\<open>{"user_id": "alice", "amount": 12345}\<close>, its record stamped ten o'clock,
  and a service that holds \<open>n\<close> such records while the clock shows ten o'clock.\<close>

definition alice_request :: pydict where
  "alice_request = [(py ''user_id'', JStr (py ''alice'')), (py ''amount'', JInt 12345)]"

definition alice_record :: tx_record where
  "alice_record = \<lparr>tx_timestamp = hours 10, tx_fields = alice_request\<rparr>"

definition alice_world :: "tx_record list \<Rightarrow> nat \<Rightarrow> world" where
  "alice_world records n =
     \<lparr>transaction_history = [KStr (py ''alice'') \<mapsto> records],
      voice_command_history = Map.empty, clock = (\<lambda>_. hours 10), reads = n\<rparr>"

section \<open>Groups that every match sets\<close>

text \<open>A group outside every alternative takes part in every match of the pattern.\<close>

fun binds :: "regex \<Rightarrow> nat \<Rightarrow> bool" where
  "binds (Group j r) i = (i = j \<or> binds r i)"
| "binds (Cat a b) i = (binds a i \<or> binds b i)"
| "binds (Alt a b) i = (binds a i \<and> binds b i)"
| "binds (Lit l) i = False"
| "binds (Rep cl lo hi) i = False"
| "binds WordB i = False"

section \<open>Evaluation lemmas\<close>

lemma digits_small: "n < 10 \<Longrightarrow> digits n = [48 + n]"
  by (simp add: digits.simps)

lemma digits_large: "\<not> n < 10 \<Longrightarrow> digits n = digits (n div 10) @ [48 + n mod 10]"
  by (subst digits.simps) simp

lemma py_int_of_int: "py_int (of_int i) = i"
  by (simp add: py_int_def)

lemma py_int_numeral: "py_int (numeral k) = numeral k"
  using py_int_of_int [of "numeral k"] by simp

lemma py_int_0: "py_int 0 = 0"
  by (simp add: py_int_def)

lemma py_int_1: "py_int 1 = 1"
  by (simp add: py_int_def)

lemma py_mod_is_zero_of_int: "m \<noteq> 0 \<Longrightarrow> py_mod_is_zero (of_int i) m = (i mod m = 0)"
proof -
  assume m: "m \<noteq> 0"
  have fl: "\<lfloor>(of_int i :: rat) / of_int m\<rfloor> = i div m"
    by (simp add: floor_divide_of_int_eq)
  have "py_mod_is_zero (of_int i) m = ((of_int ((i div m) * m) :: rat) = of_int i)"
    by (simp add: py_mod_is_zero_def fl)
  also have "\<dots> = ((i div m) * m = i)"
    by (simp only: of_int_eq_iff)
  also have "\<dots> = (i mod m = 0)"
    using m by (metis div_mult_mod_eq add.right_neutral add_left_cancel mod_eq_0_iff_dvd dvd_div_mult_self)
  finally show ?thesis .
qed

lemma py_mod_is_zero_numeral:
  "py_mod_is_zero (numeral k) (numeral m) = ((numeral k :: int) mod numeral m = 0)"
  using py_mod_is_zero_of_int [of "numeral m" "numeral k"] by simp

lemmas amount_eval =
  check_amount_patterns_def get_amount_def py_def py_str_int_def
  py_int_numeral py_int_0 py_int_1 py_mod_is_zero_numeral digits_small digits_large
  MAX_SINGLE_TRANSACTION_def SUSPICIOUS_AMOUNT_THRESHOLD_def

lemmas spec_amount_eval =
  spec_amount_rule_def all_same_digits_def
  py_int_numeral py_int_0 py_int_1 py_mod_is_zero_numeral digits_small digits_large

section \<open>The amount rule against its specification\<close>

lemma length_digits_ge2: "10 \<le> n \<Longrightarrow> length (digits n) > 1"
proof -
  assume "10 \<le> n"
  then have "digits n = digits (n div 10) @ [48 + n mod 10]"
    by (simp add: digits_large)
  moreover have "length (digits (n div 10)) > 0"
    by (subst digits.simps) simp
  ultimately show ?thesis by simp
qed

text \<open>From 10 upwards the rule of the code and the rule of the specification agree.\<close>

lemma amount_rule_agrees_from_10:
  assumes "num_value (get_amount data) = Some amount" and "10 \<le> amount"
  shows "check_amount_patterns data = Inr (spec_amount_rule amount)"
proof -
  have nn: "\<not> amount < 0" using assms(2) by simp
  have "10 \<le> \<lfloor>amount\<rfloor>" using assms(2) by (simp add: le_floor_iff)
  then have i: "py_int amount \<ge> 10" using nn by (simp add: py_int_def)
  then have len: "length (digits (nat (py_int amount))) > 1"
    by (intro length_digits_ge2) simp
  have abs: "\<bar>py_int amount\<bar> = py_int amount" using i by simp
  have str: "py_str_int (py_int amount) = digits (nat (py_int amount))"
    using i by (simp add: py_str_int_def)
  show ?thesis
    using assms(1) len
    by (simp add: check_amount_patterns_def spec_amount_rule_def all_same_digits_def abs str
        MAX_SINGLE_TRANSACTION_def SUSPICIOUS_AMOUNT_THRESHOLD_def)
qed

lemma amount_rule_examples:
  "check_amount_patterns [(py ''amount'', JInt 11111)] = Inr True"
  "check_amount_patterns [(py ''amount'', JInt 15000)] = Inr True"
  "check_amount_patterns [(py ''amount'', JInt 12345)] = Inr False"
  by (simp_all add: amount_eval)

text \<open>
  Claim C1.  The specification lets the repeated-digit disjunct of the amount rule hold only
  when the integer part has more than one digit.  The code tests
  \<^verbatim>\<open>len(set(str(int(amount)))) == 1\<close>, which also holds for every amount whose integer
  part is a single digit: the amount 5 triggers the rule in the code and not in the
  specification, and so does a request without an amount (the default 0).
\<close>

theorem amount_rule_single_digit_triggers:
  "check_amount_patterns [(py ''amount'', JInt 5)] = Inr True \<and> \<not> spec_amount_rule 5
   \<and> check_amount_patterns [] = Inr True \<and> \<not> spec_amount_rule 0"
  by (simp add: amount_eval spec_amount_rule_def all_same_digits_def)

section \<open>The shape of a verdict\<close>

lemma now_simps: "fst (now w) = clock w (reads w)" "snd (now w) = w\<lparr>reads := Suc (reads w)\<rparr>"
  by (simp_all add: now_def)

lemma detect_fraud_result:
  assumes "detect_fraud U data w = (Inr v, w')"
  obtains g r a vo h w1 w2 w3 where
    "check_gambling_keywords U data = Inr g"
    "check_transaction_patterns data w = (Inr r, w1)"
    "check_amount_patterns data = Inr a"
    "check_voice_patterns U data w1 = (Inr vo, w2)"
    "check_time_patterns data w2 = (Inr h, w3)"
    "fraud_indicators v = triggered g r a vo h"
    "risk_score v = min (sum_list (map weight_of (triggered g r a vo h))) 100"
    "is_fraud v = (sum_list (map weight_of (triggered g r a vo h)) \<ge> 50 \<or> length (triggered g r a vo h) \<ge> 2)"
    "confidence v = min (of_int (sum_list (map weight_of (triggered g r a vo h))) / 100) 1"
    "timestamp v = fst (now w3)" "w' = snd (now w3)"
proof -
  from assms obtain g where g: "check_gambling_keywords U data = Inr g"
    by (cases "check_gambling_keywords U data") (auto simp: detect_fraud_def)
  obtain rr w1 where r0: "check_transaction_patterns data w = (rr, w1)" by force
  with assms g obtain r where r: "rr = Inr r"
    by (cases rr) (auto simp: detect_fraud_def)
  from assms g r0 r obtain a where a: "check_amount_patterns data = Inr a"
    by (cases "check_amount_patterns data") (auto simp: detect_fraud_def)
  obtain vv w2 where v0: "check_voice_patterns U data w1 = (vv, w2)" by force
  with assms g r0 r a obtain vo where vo: "vv = Inr vo"
    by (cases vv) (auto simp: detect_fraud_def)
  obtain hh w3 where h0: "check_time_patterns data w2 = (hh, w3)" by force
  with assms g r0 r a v0 vo obtain h where h: "hh = Inr h"
    by (cases hh) (auto simp: detect_fraud_def)
  have acc: "add_rule h ''suspicious_time_pattern'' 10
                  (add_rule vo ''suspicious_voice_pattern'' 15
                    (add_rule a ''suspicious_amount_pattern'' 20
                      (add_rule r ''suspicious_transaction_pattern'' 25
                        (add_rule g ''gambling_keywords_detected'' 30 ([], 0)))))
        = (triggered g r a vo h, sum_list (map weight_of (triggered g r a vo h)))"
    by (simp add: add_rule_def triggered_def weight_of_def)
  have v: "v = \<lparr>is_fraud = (sum_list (map weight_of (triggered g r a vo h)) \<ge> 50 \<or> length (triggered g r a vo h) \<ge> 2),
                    risk_score = min (sum_list (map weight_of (triggered g r a vo h))) 100,
                    fraud_indicators = triggered g r a vo h,
                    confidence = min (of_int (sum_list (map weight_of (triggered g r a vo h))) / 100) 1,
                    timestamp = fst (now w3)\<rparr>" and w': "w' = snd (now w3)"
    using assms g r0 r a v0 vo h0 h
    by (simp_all add: detect_fraud_def acc split_beta Let_def del: add_rule_def)
  show ?thesis
    by (rule that[OF g _ a _ _ _ _ _ _ _ w']) (use r0 r v0 vo h0 h v in simp_all)
qed

lemma sum_weights_triggered:
  "sum_list (map weight_of (triggered g r a vo h)) =
     (if g then 30 else 0) + (if r then 25 else 0) + (if a then 20 else 0)
     + (if vo then 15 else 0) + (if h then 10 else 0)"
  by (simp add: triggered_def weight_of_def)

section \<open>A sample request\<close>

text \<open>The request \<^verbatim>\<open>{"amount": 5, "voice_command": "urgent"}\<close> at ten o'clock, on a fresh
  service: the amount rule and the voice rule fire.\<close>

lemmas ascii_eval =
  ascii_unicode_def ascii_space_def ascii_decimal_def ascii_word_def ascii_lower_def

lemma sample_gambling:
  "check_gambling_keywords ascii_unicode
     [(py ''amount'', JInt 5), (py ''voice_command'', JStr (py ''urgent''))] = Inr False"
  by (simp add: check_gambling_keywords_def field_text_def py_def GAMBLING_KEYWORDS_def ascii_eval)

lemma sample_voice:
  "check_voice_patterns ascii_unicode
     [(py ''amount'', JInt 5), (py ''voice_command'', JStr (py ''urgent''))] w = (Inr True, w)"
  by (simp add: check_voice_patterns_def py_def SUSPICIOUS_PATTERNS_def re_search_def ascii_eval
      advance_def at_boundary_def)

lemma sample_rate:
  "check_transaction_patterns
     [(py ''amount'', JInt 5), (py ''voice_command'', JStr (py ''urgent''))] w = (Inr False, w)"
  by (simp add: check_transaction_patterns_def dict_get_def py_def)

lemma sample_amount:
  "check_amount_patterns
     [(py ''amount'', JInt 5), (py ''voice_command'', JStr (py ''urgent''))] = Inr True"
  by (simp add: amount_eval)

lemma sample_verdict:
  "detect_fraud ascii_unicode
     [(py ''amount'', JInt 5), (py ''voice_command'', JStr (py ''urgent''))]
     (init (\<lambda>_. hours 10))
   = (Inr \<lparr>is_fraud = True, risk_score = 35,
            fraud_indicators = [''suspicious_amount_pattern'', ''suspicious_voice_pattern''],
            confidence = 7 / 20, timestamp = hours 10\<rparr>,
      (init (\<lambda>_. hours 10))\<lparr>reads := 2\<rparr>)"
  by (simp add: detect_fraud_def sample_gambling sample_voice sample_rate sample_amount
      check_time_patterns_def now_def init_def hours_def hour_of_def add_rule_def)

section \<open>Score and decision\<close>

text \<open>
  Claim C3.  Whenever \<^verbatim>\<open>detect_fraud\<close> returns a verdict, each of the five rules has returned
  a boolean, and the risk score of the verdict is the minimum of 100 and the sum of the
  weights 30, 25, 20, 15, 10 of the rules that returned true (gambling keywords, transaction
  rate, amount pattern, voice pattern, unusual hour); it lies between 0 and 100.
\<close>

theorem risk_score_capped_sum:
  assumes "detect_fraud U data w = (Inr v, w')"
  shows "\<exists>g r a vo h w1 w2 w3.
           check_gambling_keywords U data = Inr g
         \<and> check_transaction_patterns data w = (Inr r, w1)
         \<and> check_amount_patterns data = Inr a
         \<and> check_voice_patterns U data w1 = (Inr vo, w2)
         \<and> check_time_patterns data w2 = (Inr h, w3)
         \<and> risk_score v = min ((if g then 30 else 0) + (if r then 25 else 0) + (if a then 20 else 0)
                                 + (if vo then 15 else 0) + (if h then 10 else 0)) 100
         \<and> 0 \<le> risk_score v \<and> risk_score v \<le> 100"
proof -
  from assms obtain g r a vo h w1 w2 w3 where
    rules: "check_gambling_keywords U data = Inr g"
      "check_transaction_patterns data w = (Inr r, w1)"
      "check_amount_patterns data = Inr a"
      "check_voice_patterns U data w1 = (Inr vo, w2)"
      "check_time_patterns data w2 = (Inr h, w3)"
    and score: "risk_score v = min (sum_list (map weight_of (triggered g r a vo h))) 100"
    by (rule detect_fraud_result)
  have "0 \<le> risk_score v" "risk_score v \<le> 100"
    unfolding score sum_weights_triggered by simp_all
  with rules score show ?thesis
    unfolding sum_weights_triggered by blast
qed

theorem risk_score_capped_sum_witness:
  "detect_fraud ascii_unicode
     [(py ''amount'', JInt 5), (py ''voice_command'', JStr (py ''urgent''))]
     (init (\<lambda>_. hours 10))
   = (Inr \<lparr>is_fraud = True, risk_score = 35,
            fraud_indicators = [''suspicious_amount_pattern'', ''suspicious_voice_pattern''],
            confidence = 7 / 20, timestamp = hours 10\<rparr>,
      (init (\<lambda>_. hours 10))\<lparr>reads := 2\<rparr>)
   \<and> (\<exists>g r a vo h.
         risk_score \<lparr>is_fraud = True, risk_score = 35,
            fraud_indicators = [''suspicious_amount_pattern'', ''suspicious_voice_pattern''],
            confidence = 7 / 20, timestamp = hours 10\<rparr>
         = min ((if g then 30 else 0) + (if r then 25 else 0) + (if a then 20 else 0)
                + (if vo then 15 else 0) + (if h then 10 else 0)) 100)"
  using risk_score_capped_sum [OF sample_verdict] sample_verdict by blast

lemma length_triggered:
  "length (triggered g r a vo h) = length (filter (\<lambda>b. b) [g, r, a, vo, h])"
  by (simp add: triggered_def)

text \<open>
  Claim C4.  Whenever \<^verbatim>\<open>detect_fraud\<close> returns a verdict, each of the five rules has returned
  a boolean, the indicators of the verdict are those of the rules that returned true, and
  \<^verbatim>\<open>is_fraud\<close> holds exactly when the risk score is at least 50 or at least two rules returned
  true.  Each disjunct suffices; the second suffices alone: when only the amount rule (20)
  and the voice rule (15) fire, the score is 35 and \<^verbatim>\<open>is_fraud\<close> is true.
\<close>

theorem is_fraud_iff_score_or_count:
  assumes "detect_fraud U data w = (Inr v, w')"
  shows "\<exists>g r a vo h w1 w2 w3.
           check_gambling_keywords U data = Inr g
         \<and> check_transaction_patterns data w = (Inr r, w1)
         \<and> check_amount_patterns data = Inr a
         \<and> check_voice_patterns U data w1 = (Inr vo, w2)
         \<and> check_time_patterns data w2 = (Inr h, w3)
         \<and> fraud_indicators v = triggered g r a vo h
         \<and> length (fraud_indicators v) = length (filter (\<lambda>b. b) [g, r, a, vo, h])
         \<and> (is_fraud v \<longleftrightarrow> risk_score v \<ge> 50 \<or> length (filter (\<lambda>b. b) [g, r, a, vo, h]) \<ge> 2)
         \<and> (is_fraud v \<longleftrightarrow> risk_score v \<ge> 50 \<or> length (fraud_indicators v) \<ge> 2)
         \<and> (risk_score v \<ge> 50 \<longrightarrow> is_fraud v)
         \<and> (length (filter (\<lambda>b. b) [g, r, a, vo, h]) \<ge> 2 \<longrightarrow> is_fraud v)
         \<and> (\<not> g \<and> \<not> r \<and> a \<and> vo \<and> \<not> h \<longrightarrow> risk_score v = 35 \<and> is_fraud v)"
proof -
  from assms obtain g r a vo h w1 w2 w3 where
    rules: "check_gambling_keywords U data = Inr g"
      "check_transaction_patterns data w = (Inr r, w1)"
      "check_amount_patterns data = Inr a"
      "check_voice_patterns U data w1 = (Inr vo, w2)"
      "check_time_patterns data w2 = (Inr h, w3)"
    and ind: "fraud_indicators v = triggered g r a vo h"
    and score: "risk_score v = min (sum_list (map weight_of (triggered g r a vo h))) 100"
    and fraud: "is_fraud v = (sum_list (map weight_of (triggered g r a vo h)) \<ge> 50
                              \<or> length (triggered g r a vo h) \<ge> 2)"
    by (rule detect_fraud_result)
  have len: "length (fraud_indicators v) = length (filter (\<lambda>b. b) [g, r, a, vo, h])"
    by (simp add: ind length_triggered)
  have iff: "is_fraud v \<longleftrightarrow> risk_score v \<ge> 50 \<or> length (filter (\<lambda>b. b) [g, r, a, vo, h]) \<ge> 2"
    unfolding fraud score length_triggered by auto
  have ex: "risk_score v = 35 \<and> is_fraud v" if "\<not> g \<and> \<not> r \<and> a \<and> vo \<and> \<not> h"
    using that unfolding fraud score sum_weights_triggered length_triggered by simp
  from iff len have iff': "is_fraud v \<longleftrightarrow> risk_score v \<ge> 50 \<or> length (fraud_indicators v) \<ge> 2"
    by simp
  from rules ind len iff iff' ex show ?thesis by blast
qed

theorem is_fraud_iff_score_or_count_witness:
  "detect_fraud ascii_unicode
     [(py ''amount'', JInt 5), (py ''voice_command'', JStr (py ''urgent''))]
     (init (\<lambda>_. hours 10))
   = (Inr \<lparr>is_fraud = True, risk_score = 35,
            fraud_indicators = [''suspicious_amount_pattern'', ''suspicious_voice_pattern''],
            confidence = 7 / 20, timestamp = hours 10\<rparr>,
      (init (\<lambda>_. hours 10))\<lparr>reads := 2\<rparr>)
   \<and> check_gambling_keywords ascii_unicode
       [(py ''amount'', JInt 5), (py ''voice_command'', JStr (py ''urgent''))] = Inr False
   \<and> check_transaction_patterns
       [(py ''amount'', JInt 5), (py ''voice_command'', JStr (py ''urgent''))]
       (init (\<lambda>_. hours 10)) = (Inr False, init (\<lambda>_. hours 10))
   \<and> check_amount_patterns
       [(py ''amount'', JInt 5), (py ''voice_command'', JStr (py ''urgent''))] = Inr True
   \<and> check_voice_patterns ascii_unicode
       [(py ''amount'', JInt 5), (py ''voice_command'', JStr (py ''urgent''))]
       (init (\<lambda>_. hours 10)) = (Inr True, init (\<lambda>_. hours 10))
   \<and> fst (check_time_patterns
       [(py ''amount'', JInt 5), (py ''voice_command'', JStr (py ''urgent''))]
       (init (\<lambda>_. hours 10))) = Inr False
   \<and> length (filter (\<lambda>b. b) [False, False, True, True, False]) = 2
   \<and> risk_score \<lparr>is_fraud = True, risk_score = 35,
            fraud_indicators = [''suspicious_amount_pattern'', ''suspicious_voice_pattern''],
            confidence = 7 / 20, timestamp = hours 10\<rparr> < 50
   \<and> is_fraud \<lparr>is_fraud = True, risk_score = 35,
            fraud_indicators = [''suspicious_amount_pattern'', ''suspicious_voice_pattern''],
            confidence = 7 / 20, timestamp = hours 10\<rparr>"
proof -
  let ?d = "[(py ''amount'', JInt 5), (py ''voice_command'', JStr (py ''urgent''))]"
  let ?v = "\<lparr>is_fraud = True, risk_score = 35,
            fraud_indicators = [''suspicious_amount_pattern'', ''suspicious_voice_pattern''],
            confidence = 7 / 20, timestamp = hours 10\<rparr>"
  have time: "fst (check_time_patterns ?d (init (\<lambda>_. hours 10))) = Inr False"
    by (simp add: check_time_patterns_def now_def init_def hours_def hour_of_def)
  from is_fraud_iff_score_or_count [OF sample_verdict]
  obtain g r a vo h w1 w2 w3 where
    rules: "check_gambling_keywords ascii_unicode ?d = Inr g"
      "check_transaction_patterns ?d (init (\<lambda>_. hours 10)) = (Inr r, w1)"
      "check_amount_patterns ?d = Inr a"
      "check_voice_patterns ascii_unicode ?d w1 = (Inr vo, w2)"
      "check_time_patterns ?d w2 = (Inr h, w3)"
    and two: "\<not> g \<and> \<not> r \<and> a \<and> vo \<and> \<not> h \<longrightarrow> risk_score ?v = 35 \<and> is_fraud ?v"
    by blast
  from rules time have "\<not> g \<and> \<not> r \<and> a \<and> vo \<and> \<not> h"
    by (simp add: sample_gambling sample_rate sample_amount sample_voice)
  with two have "risk_score ?v = 35 \<and> is_fraud ?v" by blast
  with sample_verdict sample_gambling sample_rate sample_amount sample_voice time
  show ?thesis by simp
qed

section \<open>What the rules leave unchanged\<close>

text \<open>Reading the clock changes nothing but the count of readings, and the rules do nothing
  to the world but read the clock.\<close>

lemma now_frame:
  "transaction_history (snd (now w)) = transaction_history w"
  "voice_command_history (snd (now w)) = voice_command_history w"
  "clock (snd (now w)) = clock w"
  "reads (snd (now w)) = Suc (reads w)"
  by (simp_all add: now_def)

lemma recent_commands_frame:
  "transaction_history (snd (recent_commands cmds w)) = transaction_history w
   \<and> voice_command_history (snd (recent_commands cmds w)) = voice_command_history w
   \<and> clock (snd (recent_commands cmds w)) = clock w
   \<and> reads (snd (recent_commands cmds w)) = reads w + length cmds"
proof (induction cmds arbitrary: w)
  case Nil
  show ?case by simp
next
  case (Cons cmd cmds)
  show ?case
    using Cons.IH [of "snd (now w)"]
    by (simp add: split_beta Let_def now_frame)
qed

lemma check_transaction_patterns_frame:
  "transaction_history (snd (check_transaction_patterns data w)) = transaction_history w
   \<and> voice_command_history (snd (check_transaction_patterns data w)) = voice_command_history w
   \<and> clock (snd (check_transaction_patterns data w)) = clock w"
  by (simp add: check_transaction_patterns_def Let_def split_beta now_frame split: sum.split)

lemma check_voice_patterns_frame:
  "transaction_history (snd (check_voice_patterns U data w)) = transaction_history w
   \<and> voice_command_history (snd (check_voice_patterns U data w)) = voice_command_history w
   \<and> clock (snd (check_voice_patterns U data w)) = clock w"
  by (simp add: check_voice_patterns_def Let_def split_beta recent_commands_frame
      split: sum.split jval.split)

lemma check_time_patterns_frame:
  "transaction_history (snd (check_time_patterns data w)) = transaction_history w
   \<and> voice_command_history (snd (check_time_patterns data w)) = voice_command_history w
   \<and> clock (snd (check_time_patterns data w)) = clock w"
  by (simp add: check_time_patterns_def Let_def split_beta now_frame)

lemma check_time_patterns_value:
  "fst (check_time_patterns data w)
     = Inr (2 \<le> hour_of (clock w (reads w)) \<and> hour_of (clock w (reads w)) \<le> 5)"
  by (simp add: check_time_patterns_def Let_def split_beta now_def)

lemma detect_fraud_frame:
  "transaction_history (snd (detect_fraud U data w)) = transaction_history w
   \<and> voice_command_history (snd (detect_fraud U data w)) = voice_command_history w
   \<and> clock (snd (detect_fraud U data w)) = clock w"
proof -
  obtain r w1 where 1: "check_transaction_patterns data w = (r, w1)" by force
  obtain vo w2 where 2: "check_voice_patterns U data w1 = (vo, w2)" by force
  obtain h w3 where 3: "check_time_patterns data w2 = (h, w3)" by force
  have f1: "transaction_history w1 = transaction_history w"
    "voice_command_history w1 = voice_command_history w" "clock w1 = clock w"
    using check_transaction_patterns_frame [of data w] 1 by simp_all
  have f2: "transaction_history w2 = transaction_history w"
    "voice_command_history w2 = voice_command_history w" "clock w2 = clock w"
    using check_voice_patterns_frame [of U data w1] 2 f1 by simp_all
  have f3: "transaction_history w3 = transaction_history w"
    "voice_command_history w3 = voice_command_history w" "clock w3 = clock w"
    using check_time_patterns_frame [of data w2] 3 f2 by simp_all
  show ?thesis
    using 1 2 3 f1 f2 f3
    by (simp add: detect_fraud_def Let_def split_beta now_frame split: sum.split)
qed

lemma triggered_mem:
  "''gambling_keywords_detected'' \<in> set (triggered g r a vo h) \<longleftrightarrow> g"
  "''suspicious_transaction_pattern'' \<in> set (triggered g r a vo h) \<longleftrightarrow> r"
  "''suspicious_amount_pattern'' \<in> set (triggered g r a vo h) \<longleftrightarrow> a"
  "''suspicious_voice_pattern'' \<in> set (triggered g r a vo h) \<longleftrightarrow> vo"
  "''suspicious_time_pattern'' \<in> set (triggered g r a vo h) \<longleftrightarrow> h"
  by (simp_all add: triggered_def)

lemma sample_verdict_at:
  assumes "clock w (reads w) = hours 10" and "clock w (Suc (reads w)) = hours 10"
  shows "detect_fraud ascii_unicode
     [(py ''amount'', JInt 5), (py ''voice_command'', JStr (py ''urgent''))] w
   = (Inr \<lparr>is_fraud = True, risk_score = 35,
            fraud_indicators = [''suspicious_amount_pattern'', ''suspicious_voice_pattern''],
            confidence = 7 / 20, timestamp = hours 10\<rparr>,
      w\<lparr>reads := Suc (Suc (reads w))\<rparr>)"
  using assms
  by (simp add: detect_fraud_def sample_gambling sample_voice sample_rate sample_amount
      check_time_patterns_def now_def hours_def hour_of_def add_rule_def)

section \<open>The unusual-hour rule\<close>

lemma sample_verdict_at_three:
  "detect_fraud ascii_unicode
     [(py ''amount'', JInt 5), (py ''voice_command'', JStr (py ''urgent''))]
     (init (\<lambda>_. hours 3))
   = (Inr \<lparr>is_fraud = True, risk_score = 45,
            fraud_indicators = [''suspicious_amount_pattern'', ''suspicious_voice_pattern'',
                                ''suspicious_time_pattern''],
            confidence = 9 / 20, timestamp = hours 3\<rparr>,
      (init (\<lambda>_. hours 3))\<lparr>reads := 2\<rparr>)"
  by (simp add: detect_fraud_def sample_gambling sample_voice sample_rate sample_amount
      check_time_patterns_def now_def init_def hours_def hour_of_def add_rule_def)

text \<open>
  Claim C8.  The unusual-hour rule reads the clock once and returns true exactly when the
  hour read lies between 2 and 5: true at hour 3, false at hour 10.  It does not look at the
  request.  Under a clock whose hour is fixed, a verdict carries \<^verbatim>\<open>suspicious_time_pattern\<close>
  exactly when that hour lies between 2 and 5: always at hour 3, never at hour 10, whatever
  the fields of the request.
\<close>

theorem unusual_hour_rule:
  "check_time_patterns data w
     = (Inr (2 \<le> hour_of (clock w (reads w)) \<and> hour_of (clock w (reads w)) \<le> 5), snd (now w))
   \<and> check_time_patterns data w = check_time_patterns other_data w
   \<and> (hour_of (clock w (reads w)) = 3 \<longrightarrow> fst (check_time_patterns data w) = Inr True)
   \<and> (hour_of (clock w (reads w)) = 10 \<longrightarrow> fst (check_time_patterns data w) = Inr False)
   \<and> (detect_fraud U data w = (Inr v, w') \<and> (\<forall>n. hour_of (clock w n) = hr)
        \<longrightarrow> (''suspicious_time_pattern'' \<in> set (fraud_indicators v) \<longleftrightarrow> 2 \<le> hr \<and> hr \<le> 5)
          \<and> (hr = 3 \<longrightarrow> ''suspicious_time_pattern'' \<in> set (fraud_indicators v))
          \<and> (hr = 10 \<longrightarrow> ''suspicious_time_pattern'' \<notin> set (fraud_indicators v)))"
proof -
  have val: "check_time_patterns data w
     = (Inr (2 \<le> hour_of (clock w (reads w)) \<and> hour_of (clock w (reads w)) \<le> 5), snd (now w))"
    by (simp add: check_time_patterns_def Let_def split_beta now_def)
  have indep: "check_time_patterns data w = check_time_patterns other_data w"
    by (simp add: check_time_patterns_def)
  have main: "''suspicious_time_pattern'' \<in> set (fraud_indicators v) \<longleftrightarrow> 2 \<le> hr \<and> hr \<le> 5"
    if ret: "detect_fraud U data w = (Inr v, w')" and fixed: "\<forall>n. hour_of (clock w n) = hr"
  proof -
    from ret obtain g r a vo h w1 w2 w3 where
      rate: "check_transaction_patterns data w = (Inr r, w1)"
      and voice: "check_voice_patterns U data w1 = (Inr vo, w2)"
      and hour: "check_time_patterns data w2 = (Inr h, w3)"
      and ind: "fraud_indicators v = triggered g r a vo h"
      by (rule detect_fraud_result)
    have "clock w1 = clock w"
      using check_transaction_patterns_frame [of data w] rate by simp
    then have "clock w2 = clock w"
      using check_voice_patterns_frame [of U data w1] voice by simp
    then have "h \<longleftrightarrow> 2 \<le> hr \<and> hr \<le> 5"
      using check_time_patterns_value [of data w2] hour fixed by simp
    then show ?thesis by (simp add: ind triggered_mem)
  qed
  from val indep main show ?thesis by auto
qed

theorem unusual_hour_rule_witness:
  "hour_of (clock (init (\<lambda>_. hours 3)) (reads (init (\<lambda>_. hours 3)))) = 3
   \<and> fst (check_time_patterns [(py ''amount'', JInt 5)] (init (\<lambda>_. hours 3))) = Inr True
   \<and> hour_of (clock (init (\<lambda>_. hours 10)) (reads (init (\<lambda>_. hours 10)))) = 10
   \<and> fst (check_time_patterns [(py ''amount'', JInt 5)] (init (\<lambda>_. hours 10))) = Inr False
   \<and> detect_fraud ascii_unicode
       [(py ''amount'', JInt 5), (py ''voice_command'', JStr (py ''urgent''))]
       (init (\<lambda>_. hours 3))
     = (Inr \<lparr>is_fraud = True, risk_score = 45,
            fraud_indicators = [''suspicious_amount_pattern'', ''suspicious_voice_pattern'',
                                ''suspicious_time_pattern''],
            confidence = 9 / 20, timestamp = hours 3\<rparr>,
        (init (\<lambda>_. hours 3))\<lparr>reads := 2\<rparr>)
   \<and> (\<forall>n. hour_of (clock (init (\<lambda>_. hours 3)) n) = 3)
   \<and> ''suspicious_time_pattern'' \<in> set (fraud_indicators
         \<lparr>is_fraud = True, risk_score = 45,
            fraud_indicators = [''suspicious_amount_pattern'', ''suspicious_voice_pattern'',
                                ''suspicious_time_pattern''],
            confidence = 9 / 20, timestamp = hours 3\<rparr>)
   \<and> detect_fraud ascii_unicode
       [(py ''amount'', JInt 5), (py ''voice_command'', JStr (py ''urgent''))]
       (init (\<lambda>_. hours 10))
     = (Inr \<lparr>is_fraud = True, risk_score = 35,
            fraud_indicators = [''suspicious_amount_pattern'', ''suspicious_voice_pattern''],
            confidence = 7 / 20, timestamp = hours 10\<rparr>,
        (init (\<lambda>_. hours 10))\<lparr>reads := 2\<rparr>)
   \<and> (\<forall>n. hour_of (clock (init (\<lambda>_. hours 10)) n) = 10)
   \<and> ''suspicious_time_pattern'' \<notin> set (fraud_indicators
         \<lparr>is_fraud = True, risk_score = 35,
            fraud_indicators = [''suspicious_amount_pattern'', ''suspicious_voice_pattern''],
            confidence = 7 / 20, timestamp = hours 10\<rparr>)"
proof -
  have three: "\<forall>n. hour_of (clock (init (\<lambda>_. hours 3)) n) = 3"
    and ten: "\<forall>n. hour_of (clock (init (\<lambda>_. hours 10)) n) = 10"
    by (simp_all add: init_def hours_def hour_of_def)
  from unusual_hour_rule
    [of "[(py ''amount'', JInt 5)]" "init (\<lambda>_. hours 3)"]
  have a: "fst (check_time_patterns [(py ''amount'', JInt 5)] (init (\<lambda>_. hours 3))) = Inr True"
    using three by simp
  from unusual_hour_rule
    [of "[(py ''amount'', JInt 5)]" "init (\<lambda>_. hours 10)"]
  have b: "fst (check_time_patterns [(py ''amount'', JInt 5)] (init (\<lambda>_. hours 10))) = Inr False"
    using ten by simp
  from a b three ten sample_verdict sample_verdict_at_three show ?thesis by simp
qed

section \<open>Repeated evaluation\<close>

text \<open>
  Claim C9.  When \<^verbatim>\<open>detect_fraud\<close> is evaluated on a request and evaluated again on the same
  request, both times returning a verdict, the two verdicts agree on
  \<^verbatim>\<open>gambling_keywords_detected\<close> and on \<^verbatim>\<open>suspicious_amount_pattern\<close>.  The first evaluation
  leaves histories and clock as they were, so the second one sees the same ledger; the two
  indicators agree even when the second evaluation starts from any other world.
\<close>

theorem request_only_indicators_repeatable:
  assumes "detect_fraud U data w = (Inr v1, w1)" and "detect_fraud U data w2 = (Inr v2, w3)"
  shows "(''gambling_keywords_detected'' \<in> set (fraud_indicators v1)
            \<longleftrightarrow> ''gambling_keywords_detected'' \<in> set (fraud_indicators v2))
       \<and> (''suspicious_amount_pattern'' \<in> set (fraud_indicators v1)
            \<longleftrightarrow> ''suspicious_amount_pattern'' \<in> set (fraud_indicators v2))
       \<and> transaction_history w1 = transaction_history w
       \<and> voice_command_history w1 = voice_command_history w
       \<and> clock w1 = clock w"
proof -
  from assms(1) obtain g r a vo h where
    1: "check_gambling_keywords U data = Inr g" "check_amount_patterns data = Inr a"
      "fraud_indicators v1 = triggered g r a vo h"
    by (rule detect_fraud_result)
  from assms(2) obtain g' r' a' vo' h' where
    2: "check_gambling_keywords U data = Inr g'" "check_amount_patterns data = Inr a'"
      "fraud_indicators v2 = triggered g' r' a' vo' h'"
    by (rule detect_fraud_result)
  from 1 2 have "g = g'" "a = a'" by simp_all
  with 1 2 detect_fraud_frame [of U data w] assms(1) show ?thesis
    by (simp add: triggered_mem)
qed

theorem request_only_indicators_repeatable_witness:
  "detect_fraud ascii_unicode
     [(py ''amount'', JInt 5), (py ''voice_command'', JStr (py ''urgent''))]
     (init (\<lambda>_. hours 10))
   = (Inr \<lparr>is_fraud = True, risk_score = 35,
            fraud_indicators = [''suspicious_amount_pattern'', ''suspicious_voice_pattern''],
            confidence = 7 / 20, timestamp = hours 10\<rparr>,
      (init (\<lambda>_. hours 10))\<lparr>reads := 2\<rparr>)
   \<and> detect_fraud ascii_unicode
     [(py ''amount'', JInt 5), (py ''voice_command'', JStr (py ''urgent''))]
     ((init (\<lambda>_. hours 10))\<lparr>reads := 2\<rparr>)
   = (Inr \<lparr>is_fraud = True, risk_score = 35,
            fraud_indicators = [''suspicious_amount_pattern'', ''suspicious_voice_pattern''],
            confidence = 7 / 20, timestamp = hours 10\<rparr>,
      (init (\<lambda>_. hours 10))\<lparr>reads := 4\<rparr>)
   \<and> transaction_history ((init (\<lambda>_. hours 10))\<lparr>reads := 2\<rparr>)
       = transaction_history (init (\<lambda>_. hours 10))"
proof -
  have second: "detect_fraud ascii_unicode
     [(py ''amount'', JInt 5), (py ''voice_command'', JStr (py ''urgent''))]
     ((init (\<lambda>_. hours 10))\<lparr>reads := 2\<rparr>)
   = (Inr \<lparr>is_fraud = True, risk_score = 35,
            fraud_indicators = [''suspicious_amount_pattern'', ''suspicious_voice_pattern''],
            confidence = 7 / 20, timestamp = hours 10\<rparr>,
      (init (\<lambda>_. hours 10))\<lparr>reads := 4\<rparr>)"
    using sample_verdict_at [of "(init (\<lambda>_. hours 10))\<lparr>reads := 2\<rparr>"]
    by (simp add: init_def)
  from request_only_indicators_repeatable [OF sample_verdict second] sample_verdict second
  show ?thesis by blast
qed

section \<open>What the logging operations change\<close>





section \<open>The ledger invariant\<close>


lemma last_n_short: "length xs \<le> n \<Longrightarrow> last_n n xs = xs"
  by (simp add: last_n_def)























section \<open>The transaction-rate rule\<close>

lemma rate_rule_value:
  assumes "truthy (dict_get data ''user_id'')" and "key_of (dict_get data ''user_id'') = Inr k"
  shows "check_transaction_patterns data w
           = (Inr (countWithin (case transaction_history w k of None \<Rightarrow> [] | Some xs \<Rightarrow> xs)
                     (clock w (reads w)) (hours 1) > 5
                 \<or> countWithin (case transaction_history w k of None \<Rightarrow> [] | Some xs \<Rightarrow> xs)
                     (clock w (reads w)) (days 1) > 10),
              snd (now w))"
  using assms
  by (simp add: check_transaction_patterns_def countWithin_def now_def Let_def
      MAX_HOURLY_TRANSACTIONS_def MAX_DAILY_TRANSACTIONS_def)

lemma rate_rule_no_user:
  "\<not> truthy (dict_get data ''user_id'') \<Longrightarrow> check_transaction_patterns data w = (Inr False, w)"
  by (simp add: check_transaction_patterns_def)

lemma log_request_result:
  assumes "truthy (dict_get data ''user_id'')" and "key_of (dict_get data ''user_id'') = Inr k"
  shows "\<exists>w1. log_request data w = (Inr (), w1)
           \<and> transaction_history w1 k
               = Some (last_n 100
                   ((case transaction_history w k of None \<Rightarrow> [] | Some xs \<Rightarrow> xs)
                    @ [\<lparr>tx_timestamp = clock w (reads w), tx_fields = data\<rparr>]))
           \<and> clock w1 = clock w \<and> reads w < reads w1 \<and> reads w1 \<le> reads w + 2"
  using assms
  by (simp add: log_request_def log_transaction_def log_voice_command_def now_def Let_def
      last_n_short split: option.split)

lemma route_after_logging:
  assumes "truthy (dict_get data ''user_id'')" and "log_request data w = (Inr (), w1)"
  shows "detect_fraud_route U data w
           = (case detect_fraud U data w1 of
                (Inl e, w2) \<Rightarrow> (Err500, w2) | (Inr result, w2) \<Rightarrow> (Ok200 result, w2))"
proof -
  have "data \<noteq> []" using assms(1) by (auto simp: dict_get_def)
  then show ?thesis using assms(2) by (simp add: detect_fraud_route_def)
qed

lemma count_all_within:
  assumes "\<forall>x \<in> set xs. t - tx_timestamp x < window"
  shows "countWithin xs t window = length xs"
  using assms by (simp add: countWithin_def)

lemma rate_rule_parts:
  assumes "truthy (dict_get data ''user_id'')" and "key_of (dict_get data ''user_id'') = Inr k"
    and "old = (case transaction_history w k of None \<Rightarrow> [] | Some xs \<Rightarrow> xs)"
    and "new = last_n 100 (old @ [\<lparr>tx_timestamp = clock w (reads w), tx_fields = data\<rparr>])"
  shows "fst (check_transaction_patterns data w)
           = Inr (countWithin old (clock w (reads w)) (hours 1) > 5
                  \<or> countWithin old (clock w (reads w)) (days 1) > 10)"
    and "\<exists>w1. log_request data w = (Inr (), w1) \<and> transaction_history w1 k = Some new
           \<and> (\<forall>v w2. detect_fraud_route U data w = (Ok200 v, w2)
                \<longrightarrow> (''suspicious_transaction_pattern'' \<in> set (fraud_indicators v)
                      \<longleftrightarrow> countWithin new (clock w (reads w1)) (hours 1) > 5
                          \<or> countWithin new (clock w (reads w1)) (days 1) > 10))"
    and "detect_fraud_route U data w = (Ok200 v, w2)
         \<and> (\<forall>i. \<forall>x \<in> set old. clock w i - tx_timestamp x < hours 1)
         \<and> (\<forall>i. clock w i - clock w (reads w) < hours 1)
         \<longrightarrow> (length old = 5 \<longrightarrow> ''suspicious_transaction_pattern'' \<in> set (fraud_indicators v))
           \<and> (length old = 4 \<longrightarrow> ''suspicious_transaction_pattern'' \<notin> set (fraud_indicators v))"
proof -
  show "fst (check_transaction_patterns data w)
           = Inr (countWithin old (clock w (reads w)) (hours 1) > 5
                  \<or> countWithin old (clock w (reads w)) (days 1) > 10)"
    using rate_rule_value [OF assms(1,2), of w] assms(3) by simp
  from log_request_result [OF assms(1,2), of w] obtain w1 where
    w1: "log_request data w = (Inr (), w1)" "transaction_history w1 k = Some new"
      "clock w1 = clock w"
    using assms(3,4) by auto
  have ind: "''suspicious_transaction_pattern'' \<in> set (fraud_indicators v')
               \<longleftrightarrow> countWithin new (clock w (reads w1)) (hours 1) > 5
                   \<or> countWithin new (clock w (reads w1)) (days 1) > 10"
    if "detect_fraud_route U data w = (Ok200 v', w2')" for v' w2'
  proof -
    from that route_after_logging [OF assms(1) w1(1), of U]
    have "detect_fraud U data w1 = (Inr v', w2')"
      by (cases "detect_fraud U data w1") (auto split: sum.splits)
    then obtain g r a vo h wr where
      r: "check_transaction_patterns data w1 = (Inr r, wr)"
      and i: "fraud_indicators v' = triggered g r a vo h"
      by (rule detect_fraud_result)
    from r rate_rule_value [OF assms(1,2), of w1] w1(2,3)
    have "r \<longleftrightarrow> countWithin new (clock w (reads w1)) (hours 1) > 5
               \<or> countWithin new (clock w (reads w1)) (days 1) > 10"
      by simp
    then show ?thesis by (simp add: i triggered_mem)
  qed
  then show "\<exists>w1. log_request data w = (Inr (), w1) \<and> transaction_history w1 k = Some new
           \<and> (\<forall>v w2. detect_fraud_route U data w = (Ok200 v, w2)
                \<longrightarrow> (''suspicious_transaction_pattern'' \<in> set (fraud_indicators v)
                      \<longleftrightarrow> countWithin new (clock w (reads w1)) (hours 1) > 5
                          \<or> countWithin new (clock w (reads w1)) (days 1) > 10))"
    using w1 by blast
  show "detect_fraud_route U data w = (Ok200 v, w2)
         \<and> (\<forall>i. \<forall>x \<in> set old. clock w i - tx_timestamp x < hours 1)
         \<and> (\<forall>i. clock w i - clock w (reads w) < hours 1)
         \<longrightarrow> (length old = 5 \<longrightarrow> ''suspicious_transaction_pattern'' \<in> set (fraud_indicators v))
           \<and> (length old = 4 \<longrightarrow> ''suspicious_transaction_pattern'' \<notin> set (fraud_indicators v))"
  proof (intro impI, elim conjE)
    assume route: "detect_fraud_route U data w = (Ok200 v, w2)"
      and ages: "\<forall>i. \<forall>x \<in> set old. clock w i - tx_timestamp x < hours 1"
      and cur: "\<forall>i. clock w i - clock w (reads w) < hours 1"
    let ?t = "clock w (reads w1)"
    have short: "length old \<le> 5 \<Longrightarrow> new = old @ [\<lparr>tx_timestamp = clock w (reads w), tx_fields = data\<rparr>]"
      using assms(4) by (simp add: last_n_short)
    have hour: "length old \<le> 5 \<Longrightarrow> countWithin new ?t (hours 1) = Suc (length old)"
      using short ages cur by (simp add: countWithin_def)
    have day: "length old \<le> 5 \<Longrightarrow> countWithin new ?t (days 1) \<le> Suc (length old)"
      using short by (simp add: countWithin_def le_SucI)
    show "(length old = 5 \<longrightarrow> ''suspicious_transaction_pattern'' \<in> set (fraud_indicators v))
           \<and> (length old = 4 \<longrightarrow> ''suspicious_transaction_pattern'' \<notin> set (fraud_indicators v))"
      using ind [OF route] hour day by auto
  qed
qed

text \<open>
  Claim C5.  For a request whose \<^verbatim>\<open>user_id\<close> is truthy (and hashable, with key \<open>k\<close>), the
  transaction-rate rule is true exactly when more than 5 of the identity's stored
  transactions are less than an hour old or more than 10 are less than a day old, ages
  being taken at the rule's reading of the clock.  The endpoint logs the request before it
  evaluates the rules: the history the rule counts is the old history followed by the
  record of the current request (cut to the last 100), and the verdict carries
  \<^verbatim>\<open>suspicious_transaction_pattern\<close> exactly when the counts over that history exceed 5 or
  10.  Hence, when all readings of the clock are less than an hour after the stored
  timestamps and after one another, the request that makes the sixth transaction triggers
  the rule and the one that makes the fifth does not.
\<close>

theorem transaction_rate_rule:
  assumes "truthy (dict_get data ''user_id'')" and "key_of (dict_get data ''user_id'') = Inr k"
    and "old = (case transaction_history w k of None \<Rightarrow> [] | Some xs \<Rightarrow> xs)"
    and "new = last_n 100 (old @ [\<lparr>tx_timestamp = clock w (reads w), tx_fields = data\<rparr>])"
  shows "fst (check_transaction_patterns data w)
           = Inr (countWithin old (clock w (reads w)) (hours 1) > 5
                  \<or> countWithin old (clock w (reads w)) (days 1) > 10)
       \<and> (\<exists>w1. log_request data w = (Inr (), w1) \<and> transaction_history w1 k = Some new
           \<and> (\<forall>v w2. detect_fraud_route U data w = (Ok200 v, w2)
                \<longrightarrow> (''suspicious_transaction_pattern'' \<in> set (fraud_indicators v)
                      \<longleftrightarrow> countWithin new (clock w (reads w1)) (hours 1) > 5
                          \<or> countWithin new (clock w (reads w1)) (days 1) > 10)))
       \<and> (detect_fraud_route U data w = (Ok200 v, w2)
           \<and> (\<forall>i. \<forall>x \<in> set old. clock w i - tx_timestamp x < hours 1)
           \<and> (\<forall>i. clock w i - clock w (reads w) < hours 1)
           \<longrightarrow> (length old = 5 \<longrightarrow> ''suspicious_transaction_pattern'' \<in> set (fraud_indicators v))
             \<and> (length old = 4 \<longrightarrow> ''suspicious_transaction_pattern'' \<notin> set (fraud_indicators v)))"
  using rate_rule_parts [OF assms] by blast

text \<open>The sixth request of an identity within the hour.\<close>

lemma sixth_gambling: "check_gambling_keywords ascii_unicode alice_request = Inr False"
  by (simp add: alice_request_def check_gambling_keywords_def field_text_def py_def
      GAMBLING_KEYWORDS_def ascii_eval)

lemma sixth_amount: "check_amount_patterns alice_request = Inr False"
  by (simp add: alice_request_def amount_eval)

lemma sixth_voice: "check_voice_patterns ascii_unicode alice_request w = (Inr False, w)"
  by (simp add: alice_request_def check_voice_patterns_def py_def)

lemma sixth_user:
  "truthy (dict_get alice_request ''user_id'')"
  "key_of (dict_get alice_request ''user_id'') = Inr (KStr (py ''alice''))"
  by (simp_all add: alice_request_def dict_get_def py_def)

lemma sixth_logged:
  "log_request alice_request
     (alice_world [alice_record, alice_record, alice_record, alice_record, alice_record] 5)
   = (Inr (), alice_world
        [alice_record, alice_record, alice_record, alice_record, alice_record, alice_record] 6)"
  by (simp add: log_request_def sixth_user log_transaction_def now_def Let_def alice_world_def
      alice_record_def) (simp add: alice_request_def py_def)

lemma sixth_verdict:
  "detect_fraud ascii_unicode alice_request
     (alice_world
        [alice_record, alice_record, alice_record, alice_record, alice_record, alice_record] 6)
   = (Inr \<lparr>is_fraud = False, risk_score = 25,
            fraud_indicators = [''suspicious_transaction_pattern''],
            confidence = 1 / 4, timestamp = hours 10\<rparr>,
      alice_world
        [alice_record, alice_record, alice_record, alice_record, alice_record, alice_record] 9)"
  by (simp add: detect_fraud_def sixth_gambling sixth_amount sixth_voice
      rate_rule_value [OF sixth_user] countWithin_def alice_world_def alice_record_def
      hours_def days_def check_time_patterns_def hour_of_def now_def add_rule_def)

lemma sixth_route:
  "detect_fraud_route ascii_unicode alice_request
     (alice_world [alice_record, alice_record, alice_record, alice_record, alice_record] 5)
   = (Ok200 \<lparr>is_fraud = False, risk_score = 25,
             fraud_indicators = [''suspicious_transaction_pattern''],
             confidence = 1 / 4, timestamp = hours 10\<rparr>,
      alice_world
        [alice_record, alice_record, alice_record, alice_record, alice_record, alice_record] 9)"
  using route_after_logging [OF sixth_user(1) sixth_logged, of ascii_unicode]
  by (simp add: sixth_verdict)

theorem transaction_rate_rule_witness:
  "truthy (dict_get alice_request ''user_id'')
   \<and> key_of (dict_get alice_request ''user_id'') = Inr (KStr (py ''alice''))
   \<and> detect_fraud_route ascii_unicode alice_request
        (alice_world [alice_record, alice_record, alice_record, alice_record, alice_record] 5)
      = (Ok200 \<lparr>is_fraud = False, risk_score = 25,
                fraud_indicators = [''suspicious_transaction_pattern''],
                confidence = 1 / 4, timestamp = hours 10\<rparr>,
         alice_world
           [alice_record, alice_record, alice_record, alice_record, alice_record, alice_record] 9)
   \<and> fst (check_transaction_patterns alice_request
        (alice_world [alice_record, alice_record, alice_record, alice_record, alice_record] 5))
      = Inr False
   \<and> ''suspicious_transaction_pattern'' \<in> set (fraud_indicators
        \<lparr>is_fraud = False, risk_score = 25,
          fraud_indicators = [''suspicious_transaction_pattern''],
          confidence = 1 / 4, timestamp = hours 10\<rparr>)"
proof -
  let ?old = "[alice_record, alice_record, alice_record, alice_record, alice_record]"
  let ?w = "alice_world ?old 5"
  have old: "?old = (case transaction_history ?w (KStr (py ''alice'')) of
                       None \<Rightarrow> [] | Some xs \<Rightarrow> xs)"
    by (simp add: alice_world_def)
  have new: "?old @ [alice_record]
               = last_n 100 (?old @ [\<lparr>tx_timestamp = clock ?w (reads ?w),
                                      tx_fields = alice_request\<rparr>])"
    by (simp add: alice_world_def alice_record_def last_n_def)
  have ages: "\<forall>i. \<forall>x \<in> set ?old. clock ?w i - tx_timestamp x < hours 1"
    by (simp add: alice_world_def alice_record_def hours_def)
  have cur: "\<forall>i. clock ?w i - clock ?w (reads ?w) < hours 1"
    by (simp add: alice_world_def hours_def)
  have five: "countWithin ?old (clock ?w (reads ?w)) (hours 1) = 5"
    "countWithin ?old (clock ?w (reads ?w)) (days 1) = 5"
    by (simp_all add: countWithin_def alice_world_def alice_record_def hours_def days_def)
  from transaction_rate_rule [OF sixth_user old new, of ascii_unicode _ _] sixth_route ages cur
    sixth_user five
  show ?thesis by simp
qed

section \<open>Requests with a malformed or missing amount\<close>

lemma amount_type_error:
  assumes "map_of data (py ''amount'') = Some a" and "num_value a = None"
  shows "check_amount_patterns data = Inl TypeError"
  using assms by (simp add: check_amount_patterns_def get_amount_def)

lemma detect_fraud_raises:
  assumes "check_amount_patterns data = Inl TypeError"
  shows "\<exists>e w'. detect_fraud U data w = (Inl e, w')"
    and "check_gambling_keywords U data = Inr g
         \<Longrightarrow> fst (check_transaction_patterns data w) = Inr r
         \<Longrightarrow> fst (detect_fraud U data w) = Inl TypeError"
  using assms
  by (auto simp: detect_fraud_def split_beta split: sum.splits prod.splits)

lemma route_500:
  assumes "data \<noteq> []" and "check_amount_patterns data = Inl TypeError"
  shows "fst (detect_fraud_route U data w) = Err500"
proof (cases "log_request data w")
  case (Pair res w1)
  show ?thesis
  proof (cases res)
    case (Inl e)
    with Pair assms(1) show ?thesis by (simp add: detect_fraud_route_def)
  next
    case (Inr u)
    from detect_fraud_raises(1) [OF assms(2)]
    obtain e w2 where "detect_fraud U data w1 = (Inl e, w2)" by blast
    with Pair Inr assms(1) show ?thesis by (simp add: detect_fraud_route_def)
  qed
qed

text \<open>
  Claim C2, as amended.  A request whose \<^verbatim>\<open>amount\<close> is present and is not a number (a string,
  \<^verbatim>\<open>null\<close>, a list or an object) gets no verdict: the comparison \<^verbatim>\<open>amount > 50000\<close> raises
  \<^verbatim>\<open>TypeError\<close>, no rule catches it, \<^verbatim>\<open>detect_fraud\<close> raises (that error, unless the keyword
  rule or the rate rule raised before), and the endpoint answers 500.  A request without
  an \<^verbatim>\<open>amount\<close> is not an error: it is evaluated as the amount 0.
\<close>

theorem malformed_amount_raises:
  "(map_of data (py ''amount'') = Some a \<and> num_value a = None
      \<longrightarrow> check_amount_patterns data = Inl TypeError
        \<and> (\<exists>e w'. detect_fraud U data w = (Inl e, w'))
        \<and> (check_gambling_keywords U data = Inr g
             \<and> fst (check_transaction_patterns data w) = Inr r
             \<longrightarrow> fst (detect_fraud U data w) = Inl TypeError)
        \<and> fst (detect_fraud_route U data w) = Err500)
   \<and> (map_of data (py ''amount'') = None
      \<longrightarrow> check_amount_patterns data = check_amount_patterns ((py ''amount'', JInt 0) # data))"
proof -
  have 1: "check_amount_patterns data = Inl TypeError
        \<and> (\<exists>e w'. detect_fraud U data w = (Inl e, w'))
        \<and> (check_gambling_keywords U data = Inr g
             \<and> fst (check_transaction_patterns data w) = Inr r
             \<longrightarrow> fst (detect_fraud U data w) = Inl TypeError)
        \<and> fst (detect_fraud_route U data w) = Err500"
    if "map_of data (py ''amount'') = Some a" "num_value a = None"
  proof -
    have t: "check_amount_patterns data = Inl TypeError"
      using that by (rule amount_type_error)
    have ne: "data \<noteq> []" using that(1) by auto
    from t detect_fraud_raises [OF t] route_500 [OF ne t]
    show ?thesis by blast
  qed
  have 2: "check_amount_patterns data = check_amount_patterns ((py ''amount'', JInt 0) # data)"
    if "map_of data (py ''amount'') = None"
    using that by (simp add: check_amount_patterns_def get_amount_def)
  from 1 2 show ?thesis by blast
qed

lemma abc_gambling:
  "check_gambling_keywords ascii_unicode [(py ''amount'', JStr (py ''abc''))] = Inr False"
  by (simp add: check_gambling_keywords_def field_text_def py_def GAMBLING_KEYWORDS_def ascii_eval)

lemma abc_rate:
  "check_transaction_patterns [(py ''amount'', JStr (py ''abc''))] w = (Inr False, w)"
  by (simp add: check_transaction_patterns_def dict_get_def py_def)

theorem malformed_amount_raises_witness:
  "map_of [(py ''amount'', JStr (py ''abc''))] (py ''amount'') = Some (JStr (py ''abc''))
   \<and> num_value (JStr (py ''abc'')) = None
   \<and> fst (detect_fraud ascii_unicode [(py ''amount'', JStr (py ''abc''))] (init (\<lambda>_. hours 10)))
       = Inl TypeError
   \<and> fst (detect_fraud_route ascii_unicode [(py ''amount'', JStr (py ''abc''))]
           (init (\<lambda>_. hours 10))) = Err500"
proof -
  have p: "map_of [(py ''amount'', JStr (py ''abc''))] (py ''amount'') = Some (JStr (py ''abc''))"
    "num_value (JStr (py ''abc'')) = None"
    by simp_all
  from malformed_amount_raises
    [of "[(py ''amount'', JStr (py ''abc''))]" "JStr (py ''abc'')" ascii_unicode
      "init (\<lambda>_. hours 10)" False False]
    p abc_gambling abc_rate [of "init (\<lambda>_. hours 10)"]
  show ?thesis by simp
qed

text \<open>The claim as stated fails: for the request \<^verbatim>\<open>{"amount": "abc"}\<close> the assessment raises
  \<^verbatim>\<open>TypeError\<close> instead of returning a verdict, and the endpoint answers 500.\<close>

theorem malformed_amount_counterexample:
  "detect_fraud ascii_unicode [(py ''amount'', JStr (py ''abc''))] (init (\<lambda>_. hours 10))
     = (Inl TypeError, init (\<lambda>_. hours 10))
   \<and> fst (detect_fraud_route ascii_unicode [(py ''amount'', JStr (py ''abc''))]
           (init (\<lambda>_. hours 10))) = Err500"
proof -
  have t: "check_amount_patterns [(py ''amount'', JStr (py ''abc''))] = Inl TypeError"
    by (simp add: amount_type_error)
  have d: "detect_fraud ascii_unicode [(py ''amount'', JStr (py ''abc''))] (init (\<lambda>_. hours 10))
     = (Inl TypeError, init (\<lambda>_. hours 10))"
    by (simp add: detect_fraud_def abc_gambling abc_rate t)
  have ne: "[(py ''amount'', JStr (py ''abc''))] \<noteq> []" by simp
  from d route_500 [OF ne t] show ?thesis by simp
qed

section \<open>The intent extractor on ASCII commands\<close>

lemma ascii_agrees_tables:
  assumes "ascii_agrees U" and "c < 128"
  shows "u_space U c = ascii_space c" "u_decimal U c = ascii_decimal c" "u_word U c = ascii_word c"
    "ascii_decimal c \<Longrightarrow> u_digit_value U c = c - 48"
  using assms by (simp_all add: ascii_agrees_def)

lemma ascii_agrees_lower: "ascii_agrees U \<Longrightarrow> is_ascii s \<Longrightarrow> u_lower U s = ascii_lower s"
  by (simp add: ascii_agrees_def)

lemma ascii_agrees_ascii: "ascii_agrees ascii_unicode"
  by (simp add: ascii_agrees_def ascii_unicode_def)

lemmas intent_eval =
  extract_voice_intent_def send_patterns_def receive_patterns_def balance_patterns_def
  history_patterns_def help_patterns_def any_match_def re_search_def rep1_def
  letters_or_space_def ko_devanagari_def bhej_devanagari_def advance_def send_result_def
  float_of_digits_def strip_def simple_intent_def py_def
  ascii_space_def ascii_decimal_def ascii_word_def

lemma send_example:
  assumes "ascii_agrees U"
  shows "extract_voice_intent U (py ''send 500 to Ravi'')
           = Inr \<lparr>r_intent = ''send_money'', r_amount = Some 500,
                  r_recipient = Some (py ''Ravi''), r_confidence = 9 / 10,
                  r_original_command = None\<rparr>"
  by (simp add: intent_eval ascii_agrees_tables [OF assms])

section \<open>The intent extractor never raises\<close>

lemma rmatch_keeps:
  "(p', s', c') \<in> set (rmatch U r (p, s, c)) \<Longrightarrow> map_of c i \<noteq> None \<Longrightarrow> map_of c' i \<noteq> None"
proof (induction r arbitrary: p s c p' s' c')
  case (Cat a b)
  from Cat.prems(1) obtain p1 s1 c1 where
    1: "(p1, s1, c1) \<in> set (rmatch U a (p, s, c))"
    and 2: "(p', s', c') \<in> set (rmatch U b (p1, s1, c1))"
    by auto
  from Cat.IH(1) [OF 1 Cat.prems(2)] Cat.IH(2) [OF 2] show ?case by blast
next
  case (Alt a b)
  then show ?case by auto
next
  case (Group j r)
  from Group.prems(1) obtain c1 where
    1: "(p', s', c1) \<in> set (rmatch U r (p, s, c))"
    and 2: "c' = (j, take (length s - length s') s) # c1"
    by auto
  from Group.IH [OF 1 Group.prems(2)] 2 show ?case by auto
qed (auto simp: Let_def split: if_splits)

lemma rmatch_binds:
  "binds r i \<Longrightarrow> (p', s', c') \<in> set (rmatch U r (p, s, c)) \<Longrightarrow> map_of c' i \<noteq> None"
proof (induction r arbitrary: p s c p' s' c')
  case (Cat a b)
  from Cat.prems(2) obtain p1 s1 c1 where
    1: "(p1, s1, c1) \<in> set (rmatch U a (p, s, c))"
    and 2: "(p', s', c') \<in> set (rmatch U b (p1, s1, c1))"
    by auto
  show ?case
  proof (cases "binds b i")
    case True
    from Cat.IH(2) [OF True 2] show ?thesis .
  next
    case False
    with Cat.prems(1) have "binds a i" by simp
    from Cat.IH(1) [OF this 1] rmatch_keeps [OF 2] show ?thesis by blast
  qed
next
  case (Alt a b)
  then show ?case by auto
next
  case (Group j r)
  from Group.prems(2) obtain c1 where
    1: "(p', s', c1) \<in> set (rmatch U r (p, s, c))"
    and 2: "c' = (j, take (length s - length s') s) # c1"
    by auto
  show ?case
  proof (cases "i = j")
    case True
    with 2 show ?thesis by simp
  next
    case False
    with Group.prems(1) have "binds r i" by simp
    from Group.IH [OF this 1] 2 show ?thesis by auto
  qed
qed simp_all

lemma search_from_binds:
  "binds r i \<Longrightarrow> search_from U r p s = Some caps \<Longrightarrow> map_of caps i \<noteq> None"
proof (induction s arbitrary: p)
  case Nil
  then obtain p' s' rest where "rmatch U r (p, [], []) = (p', s', caps) # rest"
    by (auto split: list.splits)
  then have "(p', s', caps) \<in> set (rmatch U r (p, [], []))" by simp
  from rmatch_binds [OF Nil.prems(1) this] show ?case .
next
  case (Cons x xs)
  show ?case
  proof (cases "rmatch U r (p, x # xs, [])")
    case Nil
    with Cons.prems(2) have "search_from U r (Some x) xs = Some caps" by simp
    from Cons.IH [OF Cons.prems(1) this] show ?thesis .
  next
    case (Cons m ms)
    with Cons.prems(2) obtain p' s' where "m = (p', s', caps)"
      by (cases m) auto
    with Cons have "(p', s', caps) \<in> set (rmatch U r (p, x # xs, []))" by simp
    from rmatch_binds [OF Cons.prems(1) this] show ?thesis .
  qed
qed

lemma send_patterns_bind:
  "list_all (\<lambda>(pattern, r). binds r 1 \<and> binds r 2) send_patterns"
  by (simp add: send_patterns_def rep1_def)

lemma send_result_total:
  assumes "map_of caps 1 \<noteq> None" and "map_of caps 2 \<noteq> None"
  shows "\<exists>v. send_result U pattern caps = Inr v \<and> r_intent v = ''send_money''
             \<and> r_confidence v = 9 / 10 \<and> r_amount v \<noteq> None \<and> r_recipient v \<noteq> None"
  using assms by (auto simp: send_result_def)

lemma first_send_total:
  assumes "list_all (\<lambda>(pattern, r). binds r 1 \<and> binds r 2) ps"
    and "first_send U ps command = Some res"
  shows "\<exists>v. res = Inr v \<and> r_intent v = ''send_money'' \<and> r_confidence v = 9 / 10
             \<and> r_amount v \<noteq> None \<and> r_recipient v \<noteq> None"
  using assms
proof (induction ps)
  case Nil
  then show ?case by simp
next
  case (Cons a ps)
  obtain pattern r where a: "a = (pattern, r)" by (cases a)
  show ?case
  proof (cases "re_search U r command")
    case None
    with Cons a show ?thesis by simp
  next
    case (Some caps)
    from Cons.prems(1) a have b: "binds r 1" "binds r 2" by simp_all
    from Some have s: "search_from U r None command = Some caps"
      by (simp add: re_search_def)
    from Cons.prems(2) a Some have "res = send_result U pattern caps" by simp
    with send_result_total [OF search_from_binds [OF b(1) s] search_from_binds [OF b(2) s]]
    show ?thesis by simp
  qed
qed

lemma first_send_matches:
  "first_send U ps command \<noteq> None \<longleftrightarrow> list_ex (\<lambda>(pattern, r). re_search U r command \<noteq> None) ps"
  by (induction ps) (auto split: option.splits)

section \<open>Examples of intent extraction\<close>

lemma hindi_order_example:
  assumes "ascii_agrees U"
  shows "extract_voice_intent U (py ''Ravi ko 500 bhej'')
           = Inr \<lparr>r_intent = ''send_money'', r_amount = Some 500,
                  r_recipient = Some (py ''Ravi''), r_confidence = 9 / 10,
                  r_original_command = None\<rparr>"
  by (simp add: intent_eval ascii_agrees_tables [OF assms])

lemma balance_example:
  assumes "ascii_agrees U"
  shows "extract_voice_intent U (py ''what is my balance'')
           = Inr \<lparr>r_intent = ''check_balance'', r_amount = None, r_recipient = None,
                  r_confidence = 8 / 10, r_original_command = None\<rparr>"
  by (simp add: intent_eval ascii_agrees_tables [OF assms])

lemma unknown_example:
  assumes "ascii_agrees U"
  shows "extract_voice_intent U (py ''xyz random text'')
           = Inr \<lparr>r_intent = ''unknown'', r_amount = None, r_recipient = None,
                  r_confidence = 1 / 10, r_original_command = Some (py ''xyz random text'')\<rparr>"
  by (simp add: intent_eval ascii_agrees_tables [OF assms])

lemma upper_case_balance:
  assumes "ascii_agrees U"
  shows "extract_voice_intent U (py ''BALANCE'')
           = Inr \<lparr>r_intent = ''unknown'', r_amount = None, r_recipient = None,
                  r_confidence = 1 / 10, r_original_command = Some (py ''BALANCE'')\<rparr>"
  by (simp add: intent_eval ascii_agrees_tables [OF assms])

lemma lower_case_balance:
  assumes "ascii_agrees U"
  shows "extract_voice_intent U (py ''balance'')
           = Inr \<lparr>r_intent = ''check_balance'', r_amount = None, r_recipient = None,
                  r_confidence = 8 / 10, r_original_command = None\<rparr>"
  by (simp add: intent_eval ascii_agrees_tables [OF assms])

lemma capital_send:
  assumes "ascii_agrees U"
  shows "extract_voice_intent U (py ''Send 500 to Ravi'')
           = Inr \<lparr>r_intent = ''unknown'', r_amount = None, r_recipient = None,
                  r_confidence = 1 / 10, r_original_command = Some (py ''Send 500 to Ravi'')\<rparr>"
  by (simp add: intent_eval ascii_agrees_tables [OF assms])

lemma lower_send:
  assumes "ascii_agrees U"
  shows "extract_voice_intent U (py ''send 500 to ravi'')
           = Inr \<lparr>r_intent = ''send_money'', r_amount = Some 500,
                  r_recipient = Some (py ''ravi''), r_confidence = 9 / 10,
                  r_original_command = None\<rparr>"
  by (simp add: intent_eval ascii_agrees_tables [OF assms])

lemma process_voice_lowers:
  assumes "map_of data (py ''command'') = Some (JStr s)" and "map_of data (py ''user_id'') = None"
  shows "process_voice U data w
           = (case extract_voice_intent U (u_lower U s) of
                Inl e \<Rightarrow> (Err500, w) | Inr result \<Rightarrow> (Ok200 result, w))"
proof -
  have "data \<noteq> []" using assms(1) by auto
  then show ?thesis
    using assms by (simp add: process_voice_def dict_get_def split: sum.split)
qed

lemma lower_capital_send:
  assumes "ascii_agrees U"
  shows "u_lower U (py ''Send 500 to Ravi'') = py ''send 500 to ravi''"
proof -
  have "is_ascii (py ''Send 500 to Ravi'')"
    by (simp add: is_ascii_def py_def)
  with assms have "u_lower U (py ''Send 500 to Ravi'') = ascii_lower (py ''Send 500 to Ravi'')"
    by (rule ascii_agrees_lower)
  also have "\<dots> = py ''send 500 to ravi''"
    by (simp add: ascii_lower_def py_def)
  finally show ?thesis .
qed

section \<open>Priority order of the intent extractor\<close>

lemma extract_send:
  assumes "list_ex (\<lambda>(pattern, r). re_search U r command \<noteq> None) send_patterns"
  shows "\<exists>v. extract_voice_intent U command = Inr v \<and> r_intent v = ''send_money''
             \<and> r_confidence v = 9 / 10 \<and> r_amount v \<noteq> None \<and> r_recipient v \<noteq> None"
proof -
  from assms obtain res where res: "first_send U send_patterns command = Some res"
    using first_send_matches [of U send_patterns command] by auto
  from first_send_total [OF send_patterns_bind res] res show ?thesis
    by (auto simp: extract_voice_intent_def)
qed

lemma extract_other:
  assumes "\<not> list_ex (\<lambda>(pattern, r). re_search U r command \<noteq> None) send_patterns"
  shows "extract_voice_intent U command
           = Inr (if any_match U receive_patterns command then simple_intent ''receive_money''
                  else if any_match U balance_patterns command then simple_intent ''check_balance''
                  else if any_match U history_patterns command then simple_intent ''view_history''
                  else if any_match U help_patterns command then simple_intent ''help''
                  else \<lparr>r_intent = ''unknown'', r_amount = None, r_recipient = None,
                        r_confidence = 1 / 10, r_original_command = Some command\<rparr>)"
proof -
  from assms have "first_send U send_patterns command = None"
    using first_send_matches [of U send_patterns command] by auto
  then show ?thesis by (simp add: extract_voice_intent_def)
qed

text \<open>
  Claim C7, as amended.  \<^verbatim>\<open>extract_voice_intent\<close> never raises and tries its groups in the
  order send-money, receive-money, balance, history, help, the first group with a matching
  pattern deciding the result: a command that a send pattern matches yields \<^verbatim>\<open>send_money\<close>
  with an amount, a recipient and confidence 0.9; otherwise the first of the other four
  groups that matches yields its intent with confidence 0.8, and a command that nothing
  matches yields \<^verbatim>\<open>unknown\<close> with confidence 0.1 and the command itself.  Matching is a
  search inside the command and is case-sensitive: the patterns are in lower case, so
  \<^verbatim>\<open>BALANCE\<close> and \<^verbatim>\<open>Send 500 to Ravi\<close> yield \<^verbatim>\<open>unknown\<close>.  It is the endpoint \<^verbatim>\<open>/process-voice\<close>
  that lower-cases the command before it calls the extractor; through the endpoint
  \<^verbatim>\<open>Send 500 to Ravi\<close> yields \<^verbatim>\<open>send_money\<close> with the recipient \<^verbatim>\<open>ravi\<close>.  On the extractor
  itself \<^verbatim>\<open>send 500 to Ravi\<close> and \<^verbatim>\<open>Ravi ko 500 bhej\<close> yield \<^verbatim>\<open>send_money\<close>, amount 500,
  recipient \<^verbatim>\<open>Ravi\<close>, confidence 0.9; \<^verbatim>\<open>what is my balance\<close> yields \<^verbatim>\<open>check_balance\<close> with
  confidence 0.8; \<^verbatim>\<open>xyz random text\<close> yields \<^verbatim>\<open>unknown\<close> with confidence 0.1.
\<close>

theorem intent_priority_order:
  "(\<exists>v. extract_voice_intent U command = Inr v)
   \<and> (list_ex (\<lambda>(pattern, r). re_search U r command \<noteq> None) send_patterns
        \<longrightarrow> (\<exists>v. extract_voice_intent U command = Inr v \<and> r_intent v = ''send_money''
                 \<and> r_confidence v = 9 / 10 \<and> r_amount v \<noteq> None \<and> r_recipient v \<noteq> None))
   \<and> (\<not> list_ex (\<lambda>(pattern, r). re_search U r command \<noteq> None) send_patterns
        \<longrightarrow> extract_voice_intent U command
           = Inr (if any_match U receive_patterns command then simple_intent ''receive_money''
                  else if any_match U balance_patterns command then simple_intent ''check_balance''
                  else if any_match U history_patterns command then simple_intent ''view_history''
                  else if any_match U help_patterns command then simple_intent ''help''
                  else \<lparr>r_intent = ''unknown'', r_amount = None, r_recipient = None,
                        r_confidence = 1 / 10, r_original_command = Some command\<rparr>))
   \<and> (ascii_agrees U
        \<longrightarrow> extract_voice_intent U (py ''send 500 to Ravi'')
              = Inr \<lparr>r_intent = ''send_money'', r_amount = Some 500,
                     r_recipient = Some (py ''Ravi''), r_confidence = 9 / 10,
                     r_original_command = None\<rparr>
          \<and> extract_voice_intent U (py ''Ravi ko 500 bhej'')
              = Inr \<lparr>r_intent = ''send_money'', r_amount = Some 500,
                     r_recipient = Some (py ''Ravi''), r_confidence = 9 / 10,
                     r_original_command = None\<rparr>
          \<and> extract_voice_intent U (py ''what is my balance'')
              = Inr \<lparr>r_intent = ''check_balance'', r_amount = None, r_recipient = None,
                     r_confidence = 8 / 10, r_original_command = None\<rparr>
          \<and> extract_voice_intent U (py ''xyz random text'')
              = Inr \<lparr>r_intent = ''unknown'', r_amount = None, r_recipient = None,
                     r_confidence = 1 / 10, r_original_command = Some (py ''xyz random text'')\<rparr>
          \<and> extract_voice_intent U (py ''BALANCE'')
              = Inr \<lparr>r_intent = ''unknown'', r_amount = None, r_recipient = None,
                     r_confidence = 1 / 10, r_original_command = Some (py ''BALANCE'')\<rparr>
          \<and> extract_voice_intent U (py ''Send 500 to Ravi'')
              = Inr \<lparr>r_intent = ''unknown'', r_amount = None, r_recipient = None,
                     r_confidence = 1 / 10,
                     r_original_command = Some (py ''Send 500 to Ravi'')\<rparr>
          \<and> process_voice U [(py ''command'', JStr (py ''Send 500 to Ravi''))] w
              = (Ok200 \<lparr>r_intent = ''send_money'', r_amount = Some 500,
                        r_recipient = Some (py ''ravi''), r_confidence = 9 / 10,
                        r_original_command = None\<rparr>, w))"
proof -
  have total: "\<exists>v. extract_voice_intent U command = Inr v"
    using extract_send [of U command] extract_other [of U command] by blast
  have route: "process_voice U [(py ''command'', JStr (py ''Send 500 to Ravi''))] w
              = (Ok200 \<lparr>r_intent = ''send_money'', r_amount = Some 500,
                        r_recipient = Some (py ''ravi''), r_confidence = 9 / 10,
                        r_original_command = None\<rparr>, w)"
    if "ascii_agrees U"
  proof -
    have "map_of [(py ''command'', JStr (py ''Send 500 to Ravi''))] (py ''command'')
            = Some (JStr (py ''Send 500 to Ravi''))"
      "map_of [(py ''command'', JStr (py ''Send 500 to Ravi''))] (py ''user_id'') = None"
      by (simp_all add: py_def)
    from process_voice_lowers [OF this, of U w] lower_capital_send [OF that] lower_send [OF that]
    show ?thesis by simp
  qed
  from total extract_send [of U command] extract_other [of U command]
    send_example [of U] hindi_order_example [of U] balance_example [of U] unknown_example [of U]
    upper_case_balance [of U] capital_send [of U] route
  show ?thesis by blast
qed

theorem intent_priority_order_witness:
  "ascii_agrees ascii_unicode
   \<and> extract_voice_intent ascii_unicode (py ''send 500 to Ravi'')
       = Inr \<lparr>r_intent = ''send_money'', r_amount = Some 500,
              r_recipient = Some (py ''Ravi''), r_confidence = 9 / 10,
              r_original_command = None\<rparr>
   \<and> extract_voice_intent ascii_unicode (py ''what is my balance'')
       = Inr \<lparr>r_intent = ''check_balance'', r_amount = None, r_recipient = None,
              r_confidence = 8 / 10, r_original_command = None\<rparr>"
  using intent_priority_order [of ascii_unicode "py ''send 500 to Ravi''"] ascii_agrees_ascii
  by blast

text \<open>The claim as stated fails: the extractor does not match case-insensitively.  The
  command \<^verbatim>\<open>BALANCE\<close> yields \<^verbatim>\<open>unknown\<close> where \<^verbatim>\<open>balance\<close> yields \<^verbatim>\<open>check_balance\<close>.\<close>

theorem intent_case_counterexample:
  "extract_voice_intent ascii_unicode (py ''BALANCE'')
     = Inr \<lparr>r_intent = ''unknown'', r_amount = None, r_recipient = None,
            r_confidence = 1 / 10, r_original_command = Some (py ''BALANCE'')\<rparr>
   \<and> extract_voice_intent ascii_unicode (py ''balance'')
     = Inr \<lparr>r_intent = ''check_balance'', r_amount = None, r_recipient = None,
            r_confidence = 8 / 10, r_original_command = None\<rparr>"
  using upper_case_balance [OF ascii_agrees_ascii] lower_case_balance [OF ascii_agrees_ascii]
  by simp

end
